theory Spec2Isabelle
  imports Complex_Main "HOL-Library.Multiset" "HOL-Library.Product_Lexorder"
begin

section \<open>Go values used by the service\<close>

text \<open>
  Go strings are byte sequences and \<open>len\<close> counts bytes, so a Go string is a
  \<^typ>\<open>string\<close> (a list of 8-bit characters) and \<open>len\<close> is \<^const>\<open>length\<close>.
  A \<open>time.Time\<close> of this program always has a zero nanosecond part and the local
  location, and the program only compares instants and reads \<open>Unix()\<close>; it is
  modelled by its Unix seconds. Go's \<open>int\<close> and \<open>int64\<close> fields are only copied,
  compared and stored, never computed with, so they are \<^typ>\<open>int\<close>.
  A \<open>float64\<close> is only produced by the parser, defaulted to zero and stored; it is
  carried as a \<^typ>\<open>real\<close> and the parser is a parameter.
\<close>

type_synonym time = int
type_synonym float64 = real

datatype error =
  ErrSyntax
  | ErrRange
  | ErrFloat
  | ErrConstraint
  | ErrStorage
  | ErrScan
  | ErrNilPointer

subsection \<open>\<open>strings.ToUpper\<close>\<close>

definition is_ascii :: "char \<Rightarrow> bool" where
  "is_ascii c = ((of_char c :: nat) < 128)"

definition is_lower :: "char \<Rightarrow> bool" where
  "is_lower c = (97 \<le> (of_char c :: nat) \<and> (of_char c :: nat) \<le> 122)"

definition is_upper :: "char \<Rightarrow> bool" where
  "is_upper c = (65 \<le> (of_char c :: nat) \<and> (of_char c :: nat) \<le> 90)"

definition upper_byte :: "char \<Rightarrow> char" where
  "upper_byte c = (if is_lower c then char_of ((of_char c :: nat) - 32) else c)"

text \<open>
  The library function scans the bytes first. An all-ASCII string is returned as it is
  when it has no byte in \<open>a..z\<close>, and has those bytes shifted to \<open>A..Z\<close> otherwise.
  A string with a byte of 128 or more goes through \<open>strings.Map(unicode.ToUpper, s)\<close>,
  which depends on the Unicode tables: that mapping is the parameter \<open>um\<close>.
\<close>

definition ToUpper :: "(string \<Rightarrow> string) \<Rightarrow> string \<Rightarrow> string" where
  "ToUpper um s =
     (if list_all is_ascii s
      then (if \<not> list_ex is_lower s then s else map upper_byte s)
      else um s)"

subsection \<open>\<open>strconv.ParseUint(s, 10, 32)\<close>\<close>

definition is_digit :: "char \<Rightarrow> bool" where
  "is_digit c = (48 \<le> (of_char c :: nat) \<and> (of_char c :: nat) \<le> 57)"

definition digit_val :: "char \<Rightarrow> int" where
  "digit_val c = (of_char c :: int) - 48"

definition decimal_val :: "string \<Rightarrow> int" where
  "decimal_val s = fold (\<lambda>c n. 10 * n + digit_val c) s 0"

text \<open>
  With an explicit base 10 neither a sign nor an underscore is accepted; the empty
  string and any non-digit give a syntax error, a value of \<open>2^32 = 4294967296\<close> or
  more a range error. The parsed \<open>uint64\<close> is carried as a non-negative \<^typ>\<open>int\<close>.
\<close>

definition ParseUint :: "string \<Rightarrow> error + int" where
  "ParseUint s =
     (if s = [] then Inl ErrSyntax
      else if \<not> list_all is_digit s then Inl ErrSyntax
      else if decimal_val s \<ge> 4294967296 then Inl ErrRange
      else Inr (decimal_val s))"

subsection \<open>\<open>time.Date\<close> and the local zone\<close>

text \<open>
  The zone \<open>time.Local\<close> is a parameter \<open>loc\<close>: its lookup function, which gives
  for an instant (in Unix seconds) the offset east of UTC in force at that instant and
  the period \<open>[start, stop)\<close> in which that offset is in force.
\<close>

type_synonym zone = "int \<Rightarrow> int \<times> int \<times> int"

text \<open>
  \<open>time.Date\<close> first takes the reading of the wall clock as if it were UTC, looks
  the zone up at that number and subtracts the offset it finds; when the result lies
  outside the period of that offset, it subtracts the offset in force at the result
  instead. A wall clock reading that the zone skips therefore lands on an instant
  whose own reading is different.
\<close>

definition wall_to_unix :: "zone \<Rightarrow> int \<Rightarrow> time" where
  "wall_to_unix loc unix =
     (case loc unix of
        (offset, start, stop) \<Rightarrow>
          if offset \<noteq> 0
          then (let utc = unix - offset
                in if utc < start \<or> stop \<le> utc then unix - fst (loc utc) else unix - offset)
          else unix)"

text \<open>
  \<open>time.Date\<close> accepts months and days outside their usual ranges: the month is
  reduced modulo 12 into the year, and the day is added linearly to the number of the
  day.
\<close>

definition is_leap :: "int \<Rightarrow> bool" where
  "is_leap y = (y mod 4 = 0 \<and> (y mod 100 \<noteq> 0 \<or> y mod 400 = 0))"

definition days_since_epoch :: "int \<Rightarrow> int" where
  "days_since_epoch y =
     365 * (y - 1970) + ((y - 1) div 4 - (y - 1) div 100 + (y - 1) div 400) - 477"

definition daysBefore :: "int list" where
  "daysBefore = [0, 31, 59, 90, 120, 151, 181, 212, 243, 273, 304, 334, 365]"

definition time_Date :: "zone \<Rightarrow> int \<Rightarrow> int \<Rightarrow> int \<Rightarrow> time" where
  "time_Date loc year month day =
     (let m = month - 1;
          y = year + m div 12;
          mi = m mod 12;
          d = days_since_epoch y + daysBefore ! nat mi
                + (if is_leap y \<and> 2 \<le> mi then 1 else 0) + (day - 1)
      in wall_to_unix loc (d * 86400))"

text \<open>
  \<open>normalizeDate\<close> reads the calendar day of the local clock of an instant
  (\<open>timestamp.Date()\<close>: the day that holds the instant plus the offset in force at
  it) and calls \<open>time.Date\<close> on that day at 0:00:00. The year, month and day it
  passes are the ones of that day's number, so the call is \<open>wall_to_unix\<close> on the
  number.
\<close>

definition normalizeDate :: "zone \<Rightarrow> time \<Rightarrow> time" where
  "normalizeDate loc t = wall_to_unix loc (((t + fst (loc t)) div 86400) * 86400)"

definition epochStart :: time where
  "epochStart = 0"

section \<open>Types of the library\<close>

record Country =
  ID :: int
  Code :: string
  GeoID :: string
  Name :: string
  Population :: int
  Continent :: string

text \<open>The \<open>*Country\<close> pointer of a statistics record is an option: \<open>None\<close> is nil.\<close>

record CovidStatisticsRecord =
  Date :: time
  Cases :: int
  Deaths :: int
  Cumulative :: float64
  Country :: "Country option"

record CovidStatisticsRecordResult =
  Result :: CovidStatisticsRecord
  Error :: "error option"

text \<open>The zero value of the Go struct; the zero \<open>time.Time\<close> is 1 January of year 1.\<close>

definition zero_record :: CovidStatisticsRecord where
  "zero_record =
     \<lparr>Date = - 62135596800, Cases = 0, Deaths = 0, Cumulative = 0, Country = None\<rparr>"

datatype CountryQueryType = CountryQueryByID | CountryQueryByGeoID | CountryQueryByName

record CountryQuery =
  QueryType :: CountryQueryType
  Query :: string

text \<open>A row of the table \<open>Cases\<close>; its primary key is \<open>(Date, CountryId)\<close>.\<close>

record CaseRow =
  row_Date :: int
  row_CountryId :: int
  row_Cases :: int
  row_Deaths :: int
  row_Cumulative :: float64

text \<open>
  The store: the rows of \<open>Countries\<close> and of \<open>Cases\<close> in insertion order, and the
  in-memory \<open>countryCache\<close> of the \<open>Database\<close> struct.
\<close>

record Database =
  countries :: "Country list"
  cases :: "CaseRow list"
  countryCache :: "int \<rightharpoonup> Country"

definition row_key :: "CaseRow \<Rightarrow> int \<times> int" where
  "row_key r = (row_Date r, row_CountryId r)"

text \<open>The record of the ECDC feed (the unused \<open>dateRep\<close> string is left out).\<close>

record Record =
  Day :: string
  Month :: string
  Year :: string
  rec_Cases :: int
  rec_Deaths :: int
  CountryName :: string
  rec_GeoID :: string
  CountryCode :: string
  rec_Population :: int
  rec_Continent :: string
  CumulativeCases :: string

section \<open>The store\<close>

text \<open>
  The SQLite engine is taken to work: a statement fails only where the schema makes
  it fail (the primary key of \<open>Cases\<close>) or where a fault is injected. Faults are
  injected, as predicates, at the statements whose failure the specification speaks
  of: the \<open>INSERT\<close> of a fact (\<open>flt\<close>), the step of the result cursor to its next
  row (\<open>nflt\<close>), the \<open>Scan\<close> of a result row (\<open>sflt\<close>) and the lookup inside
  \<open>CountryByID\<close> (\<open>rflt\<close>). The other statements return no error in the model, so
  the functions built only on them return their value without the Go \<open>error\<close>.
\<close>

subsection \<open>Countries\<close>

text \<open>\<open>ORDER BY Id DESC LIMIT 1\<close>: the row of greatest \<open>Id\<close>.\<close>

fun newest :: "Country list \<Rightarrow> Country option" where
  "newest [] = None"
| "newest (c # cs) =
     (case newest cs of
        None \<Rightarrow> Some c
      | Some b \<Rightarrow> if ID c < ID b then Some b else Some c)"

definition Database_Country :: "Database \<Rightarrow> string \<Rightarrow> Country option" where
  "Database_Country db code = newest (filter (\<lambda>c. Code c = code) (countries db))"

definition CountryByID ::
  "(int \<Rightarrow> bool) \<Rightarrow> Database \<Rightarrow> int \<Rightarrow> (error + Country option) \<times> Database" where
  "CountryByID rflt db i =
     (case countryCache db i of
        Some c \<Rightarrow> (Inr (Some c), db)
      | None \<Rightarrow>
          if rflt i then (Inl ErrStorage, db)
          else (case filter (\<lambda>c. ID c = i) (countries db) of
                  c # _ \<Rightarrow> (Inr (Some c), db\<lparr>countryCache := (countryCache db)(i \<mapsto> c)\<rparr>)
                | [] \<Rightarrow> (Inr None, db)))"

text \<open>
  \<open>Id INTEGER PRIMARY KEY AUTOINCREMENT\<close>: the new row gets one more than the
  greatest identifier the table has held (no row is ever deleted), and 1 in an
  empty table.
\<close>

definition next_id :: "Country list \<Rightarrow> int" where
  "next_id cs = 1 + fold max (map ID cs) 0"

definition newCountryRecord :: "Database \<Rightarrow> Country \<Rightarrow> Country \<times> Database" where
  "newCountryRecord db country =
     (let c = country\<lparr>ID := next_id (countries db)\<rparr>
      in (c, db\<lparr>countries := countries db @ [c],
                 countryCache := (countryCache db)(ID c \<mapsto> c)\<rparr>))"

definition PutCountry ::
  "Database \<Rightarrow> string \<Rightarrow> string \<Rightarrow> string \<Rightarrow> int \<Rightarrow> string \<Rightarrow> Country \<times> Database" where
  "PutCountry db code geoID name population continent =
     (let country = \<lparr>ID = 0, Code = code, GeoID = geoID, Name = name,
                      Population = population, Continent = continent\<rparr>
      in case newest (filter (\<lambda>c. Code c = code) (countries db)) of
           Some currentRevision \<Rightarrow>
             if GeoID currentRevision \<noteq> geoID \<or> Name currentRevision \<noteq> name \<or>
                Population currentRevision \<noteq> population \<or>
                Continent currentRevision \<noteq> continent
             then newCountryRecord db country
             else (currentRevision, db)
         | None \<Rightarrow> newCountryRecord db country)"

subsection \<open>Facts\<close>

definition to_row :: "zone \<Rightarrow> CovidStatisticsRecord \<Rightarrow> Country \<Rightarrow> CaseRow" where
  "to_row loc record c =
     \<lparr>row_Date = normalizeDate loc (Date record), row_CountryId = ID c,
      row_Cases = Cases record, row_Deaths = Deaths record,
      row_Cumulative = Cumulative record\<rparr>"

text \<open>The row a record of the batch is written as, when its country is not nil.\<close>

definition record_row :: "zone \<Rightarrow> CovidStatisticsRecord \<Rightarrow> CaseRow option" where
  "record_row loc record = map_option (to_row loc record) (Country record)"

text \<open>One \<open>insertStmt.Exec\<close> inside the transaction, on its working copy of the table.\<close>

definition exec_insert :: "(CaseRow \<Rightarrow> bool) \<Rightarrow> CaseRow list \<Rightarrow> CaseRow \<Rightarrow> error + CaseRow list" where
  "exec_insert flt tbl row =
     (if flt row then Inl ErrStorage
      else if row_key row \<in> set (map row_key tbl) then Inl ErrConstraint
      else Inr (tbl @ [row]))"

fun insert_all ::
  "(CaseRow \<Rightarrow> bool) \<Rightarrow> zone \<Rightarrow> CaseRow list \<Rightarrow> CovidStatisticsRecord list \<Rightarrow> error + CaseRow list" where
  "insert_all flt loc tbl [] = Inr tbl"
| "insert_all flt loc tbl (record # records) =
     (case Country record of
        None \<Rightarrow> Inl ErrNilPointer
      | Some c \<Rightarrow>
          (case exec_insert flt tbl (to_row loc record c) of
             Inl e \<Rightarrow> Inl e
           | Inr tbl' \<Rightarrow> insert_all flt loc tbl' records))"

text \<open>
  \<open>ImportRecords\<close>: the loop runs in one transaction; the first failing \<open>Exec\<close>
  rolls it back and returns the error, the end of the loop commits.
\<close>

definition ImportRecords ::
  "(CaseRow \<Rightarrow> bool) \<Rightarrow> zone \<Rightarrow> Database \<Rightarrow> CovidStatisticsRecord list \<Rightarrow> error option \<times> Database" where
  "ImportRecords flt loc db records =
     (case insert_all flt loc (cases db) records of
        Inl e \<Rightarrow> (Some e, db)
      | Inr tbl \<Rightarrow> (None, db\<lparr>cases := tbl\<rparr>))"

text \<open>\<open>Cases INNER JOIN Countries ON Cases.CountryId = Countries.Id\<close>.\<close>

definition joined :: "Database \<Rightarrow> (CaseRow \<times> Country) list" where
  "joined db =
     concat (map (\<lambda>r. map (Pair r) (filter (\<lambda>c. ID c = row_CountryId r) (countries db)))
                 (cases db))"

definition LastRecordDate :: "Database \<Rightarrow> string \<Rightarrow> time" where
  "LastRecordDate db countryCode =
     (case map (row_Date \<circ> fst) (filter (\<lambda>(r, c). Code c = countryCode) (joined db)) of
        [] \<Rightarrow> epochStart
      | d # ds \<Rightarrow> Max (set (d # ds)))"

section \<open>The ECDC importer\<close>

definition Timestamp :: "zone \<Rightarrow> Record \<Rightarrow> error + time" where
  "Timestamp loc record =
     (case ParseUint (Day record) of
        Inl e \<Rightarrow> Inl e
      | Inr day \<Rightarrow>
          (case ParseUint (Month record) of
             Inl e \<Rightarrow> Inl e
           | Inr month \<Rightarrow>
               (case ParseUint (Year record) of
                  Inl e \<Rightarrow> Inl e
                | Inr year \<Rightarrow> Inr (time_Date loc year month day))))"

text \<open>\<open>strconv.ParseFloat(s, 64)\<close> is the parameter \<open>pf\<close>.\<close>

definition parse_cumulative :: "(string \<Rightarrow> error + float64) \<Rightarrow> Record \<Rightarrow> error + float64" where
  "parse_cumulative pf record =
     (if length (CumulativeCases record) > 0 then pf (CumulativeCases record) else Inr 0)"

definition lastRecordTime ::
  "Database \<Rightarrow> (string \<rightharpoonup> time) \<Rightarrow> string \<Rightarrow> time \<times> (string \<rightharpoonup> time)" where
  "lastRecordTime db lastRecordCache countryCode =
     (case lastRecordCache countryCode of
        Some t \<Rightarrow> (t, lastRecordCache)
      | None \<Rightarrow> (LastRecordDate db countryCode,
                 lastRecordCache(countryCode \<mapsto> LastRecordDate db countryCode)))"

text \<open>
  The loop of \<open>ecdcImporter.Import\<close>, with the importer's database, its
  \<open>lastRecordCache\<close> and the slice \<open>recordsForImport\<close> as explicit state.
\<close>

fun import_loop ::
  "zone \<Rightarrow> (string \<Rightarrow> error + float64) \<Rightarrow> Database \<Rightarrow> (string \<rightharpoonup> time) \<Rightarrow>
   CovidStatisticsRecord list \<Rightarrow> Record list \<Rightarrow>
   (error + CovidStatisticsRecord list) \<times> Database" where
  "import_loop loc pf db cache recordsForImport [] = (Inr recordsForImport, db)"
| "import_loop loc pf db cache recordsForImport (record # rest) =
     (case Timestamp loc record of
        Inl e \<Rightarrow> (Inl e, db)
      | Inr timestamp \<Rightarrow>
          (case parse_cumulative pf record of
             Inl e \<Rightarrow> (Inl e, db)
           | Inr cumulative \<Rightarrow>
               if \<not> fst (lastRecordTime db cache (CountryCode record)) < timestamp
               then import_loop loc pf db (snd (lastRecordTime db cache (CountryCode record)))
                      recordsForImport rest
               else import_loop loc pf
                      (snd (PutCountry db (CountryCode record) (rec_GeoID record)
                              (CountryName record) (rec_Population record)
                              (rec_Continent record)))
                      (snd (lastRecordTime db cache (CountryCode record)))
                      (recordsForImport @
                         [\<lparr>Date = timestamp, Cases = rec_Cases record,
                           Deaths = rec_Deaths record, Cumulative = cumulative,
                           Country = Some (fst (PutCountry db (CountryCode record)
                              (rec_GeoID record) (CountryName record)
                              (rec_Population record) (rec_Continent record)))\<rparr>])
                      rest))"

text \<open>
  \<open>DataSource.Import\<close> builds an importer with an empty \<open>lastRecordCache\<close> and
  runs it; the staged records go to \<open>ImportRecords\<close> in one batch.
\<close>

definition Import ::
  "(CaseRow \<Rightarrow> bool) \<Rightarrow> zone \<Rightarrow> (string \<Rightarrow> error + float64) \<Rightarrow> Database \<Rightarrow> Record list \<Rightarrow>
   error option \<times> Database" where
  "Import flt loc pf db records =
     (case import_loop loc pf db Map.empty [] records of
        (Inl e, db') \<Rightarrow> (Some e, db')
      | (Inr recordsForImport, db') \<Rightarrow> ImportRecords flt loc db' recordsForImport)"

section \<open>Queries\<close>

definition NewQuery :: "(string \<Rightarrow> string) \<Rightarrow> string \<Rightarrow> CountryQuery" where
  "NewQuery um query =
     (if length query = 2 \<and> ToUpper um query = query
      then \<lparr>QueryType = CountryQueryByGeoID, Query = query\<rparr>
      else if length query = 3 \<and> ToUpper um query = query
      then \<lparr>QueryType = CountryQueryByID, Query = query\<rparr>
      else \<lparr>QueryType = CountryQueryByName, Query = query\<rparr>)"

text \<open>
  The column \<open>Name\<close> is declared \<open>COLLATE NOCASE\<close>, so \<open>Countries.Name = ?\<close>
  compares after folding the 26 ASCII upper-case letters; \<open>Code\<close> and \<open>GeoId\<close>
  compare bytewise.
\<close>

definition lower_byte :: "char \<Rightarrow> char" where
  "lower_byte c = (if is_upper c then char_of ((of_char c :: nat) + 32) else c)"

definition nocase :: "string \<Rightarrow> string" where
  "nocase s = map lower_byte s"

definition column_matches :: "CountryQueryType \<Rightarrow> Country \<Rightarrow> string \<Rightarrow> bool" where
  "column_matches qt c q =
     (case qt of
        CountryQueryByGeoID \<Rightarrow> GeoID c = q
      | CountryQueryByName \<Rightarrow> nocase (Name c) = nocase q
      | CountryQueryByID \<Rightarrow> Code c = q)"

text \<open>
  The rows the \<open>SELECT\<close> matches, in table order, and then \<open>ORDER BY Date ASC\<close>.
  SQLite serves the order from the primary key index of \<open>Cases\<close>, so rows of equal
  date come in the order of \<open>CountryId\<close>: the rows are sorted by their key.
\<close>

definition matching_rows :: "zone \<Rightarrow> Database \<Rightarrow> CountryQuery \<Rightarrow> time \<Rightarrow> CaseRow list" where
  "matching_rows loc db query since =
     map fst (filter (\<lambda>(r, c). column_matches (QueryType query) c (Query query) \<and>
                              normalizeDate loc since \<le> row_Date r)
                     (joined db))"

definition query_rows :: "zone \<Rightarrow> Database \<Rightarrow> CountryQuery \<Rightarrow> time \<Rightarrow> CaseRow list" where
  "query_rows loc db query since = sort_key row_key (matching_rows loc db query since)"

text \<open>
  The goroutine: every element sent on the channel, in order, up to its close. The
  loop runs while \<open>res.Next()\<close> returns true. \<open>Next\<close> returns false after the last
  row and also when the step to the next row fails; the loop never reads
  \<open>res.Err()\<close>, so in both cases it ends and the channel is closed. A failing
  \<open>Scan\<close> or \<open>CountryByID\<close> sends an element with only the error set and leaves
  the loop.
\<close>

fun produce ::
  "(CaseRow \<Rightarrow> bool) \<Rightarrow> (CaseRow \<Rightarrow> bool) \<Rightarrow> (int \<Rightarrow> bool) \<Rightarrow> Database \<Rightarrow> CaseRow list \<Rightarrow>
   CovidStatisticsRecordResult list \<times> Database" where
  "produce nflt sflt rflt db [] = ([], db)"
| "produce nflt sflt rflt db (r # rs) =
     (if nflt r then ([], db)
      else if sflt r then ([\<lparr>Result = zero_record, Error = Some ErrScan\<rparr>], db)
      else (case CountryByID rflt db (row_CountryId r) of
              (Inl e, db') \<Rightarrow> ([\<lparr>Result = zero_record, Error = Some e\<rparr>], db')
            | (Inr country, db') \<Rightarrow>
                (\<lparr>Result = \<lparr>Date = row_Date r, Cases = row_Cases r, Deaths = row_Deaths r,
                            Cumulative = row_Cumulative r, Country = country\<rparr>,
                  Error = None\<rparr> # fst (produce nflt sflt rflt db' rs),
                 snd (produce nflt sflt rflt db' rs))))"

definition RetrieveRecordsSince ::
  "(CaseRow \<Rightarrow> bool) \<Rightarrow> (CaseRow \<Rightarrow> bool) \<Rightarrow> (int \<Rightarrow> bool) \<Rightarrow> zone \<Rightarrow> Database \<Rightarrow>
   CountryQuery \<Rightarrow> time \<Rightarrow> CovidStatisticsRecordResult list \<times> Database" where
  "RetrieveRecordsSince nflt sflt rflt loc db query since =
     produce nflt sflt rflt db (query_rows loc db query since)"

definition RetrieveRecords ::
  "(CaseRow \<Rightarrow> bool) \<Rightarrow> (CaseRow \<Rightarrow> bool) \<Rightarrow> (int \<Rightarrow> bool) \<Rightarrow> zone \<Rightarrow> Database \<Rightarrow>
   CountryQuery \<Rightarrow> CovidStatisticsRecordResult list \<times> Database" where
  "RetrieveRecords nflt sflt rflt loc db query =
     RetrieveRecordsSince nflt sflt rflt loc db query epochStart"

section \<open>Notions used in the statements\<close>



text \<open>
  What \<open>CountryByID\<close> answers for an identifier in a given store: the cached
  country if there is one, the row of that identifier otherwise.
\<close>

definition resolve :: "Database \<Rightarrow> int \<Rightarrow> Country option" where
  "resolve db i =
     (case countryCache db i of
        Some c \<Rightarrow> Some c
      | None \<Rightarrow> (case filter (\<lambda>c. ID c = i) (countries db) of c # _ \<Rightarrow> Some c | [] \<Rightarrow> None))"

text \<open>
  A result row fails when its \<open>Scan\<close> is faulted, or when its country is not cached
  and the lookup of the country is faulted.
\<close>

definition row_fails :: "(CaseRow \<Rightarrow> bool) \<Rightarrow> (int \<Rightarrow> bool) \<Rightarrow> Database \<Rightarrow> CaseRow \<Rightarrow> bool" where
  "row_fails sflt rflt db r =
     (sflt r \<or> (countryCache db (row_CountryId r) = None \<and> rflt (row_CountryId r)))"

definition row_error :: "(CaseRow \<Rightarrow> bool) \<Rightarrow> CaseRow \<Rightarrow> error" where
  "row_error sflt r = (if sflt r then ErrScan else ErrStorage)"

definition row_result :: "Database \<Rightarrow> CaseRow \<Rightarrow> CovidStatisticsRecordResult" where
  "row_result db r =
     \<lparr>Result = \<lparr>Date = row_Date r, Cases = row_Cases r, Deaths = row_Deaths r,
                 Cumulative = row_Cumulative r, Country = resolve db (row_CountryId r)\<rparr>,
      Error = None\<rparr>"

definition error_result :: "error \<Rightarrow> CovidStatisticsRecordResult" where
  "error_result e = \<lparr>Result = zero_record, Error = Some e\<rparr>"

text \<open>A record of the feed is valid when its date fields and its incidence field parse.\<close>

definition valid_record :: "zone \<Rightarrow> (string \<Rightarrow> error + float64) \<Rightarrow> Record \<Rightarrow> bool" where
  "valid_record loc pf r = (\<not> isl (Timestamp loc r) \<and> \<not> isl (parse_cumulative pf r))"

text \<open>
  The local midnight of a record's date exists in the zone: the instant \<open>time.Date\<close>
  gives for the date is the midnight of its own calendar day.
\<close>

definition midnight_ok :: "zone \<Rightarrow> Record \<Rightarrow> bool" where
  "midnight_ok loc r =
     (case Timestamp loc r of Inr t \<Rightarrow> normalizeDate loc t = t | Inl _ \<Rightarrow> True)"

text \<open>A record is after the watermark of a store: its date is strictly after the last
  fact date the store has for its country code.\<close>

definition admitted :: "zone \<Rightarrow> Database \<Rightarrow> Record \<Rightarrow> bool" where
  "admitted loc db r =
     (case Timestamp loc r of
        Inr t \<Rightarrow> LastRecordDate db (CountryCode r) < t
      | Inl _ \<Rightarrow> False)"

text \<open>Dates strictly increase along the feed, within each country code.\<close>

fun increasing_per_code :: "zone \<Rightarrow> Record list \<Rightarrow> bool" where
  "increasing_per_code loc [] = True"
| "increasing_per_code loc (r # rs) =
     (list_all (\<lambda>x. CountryCode x = CountryCode r \<longrightarrow>
                 (case Timestamp loc r of
                    Inr a \<Rightarrow> (case Timestamp loc x of Inr b \<Rightarrow> a < b | Inl _ \<Rightarrow> False)
                  | Inl _ \<Rightarrow> False)) rs \<and>
      increasing_per_code loc rs)"

text \<open>The fact staged for a record: its fields, and a country with the record's
  code and attributes.\<close>

definition stages ::
  "zone \<Rightarrow> (string \<Rightarrow> error + float64) \<Rightarrow> Record \<Rightarrow> CovidStatisticsRecord \<Rightarrow> bool" where
  "stages loc pf r f =
     (Timestamp loc r = Inr (Date f) \<and> parse_cumulative pf r = Inr (Cumulative f) \<and>
      Cases f = rec_Cases r \<and> Deaths f = rec_Deaths r \<and>
      (case Country f of
         Some c \<Rightarrow> Code c = CountryCode r \<and> GeoID c = rec_GeoID r \<and> Name c = CountryName r \<and>
                   Population c = rec_Population r \<and> Continent c = rec_Continent r
       | None \<Rightarrow> False))"

text \<open>The row written for a record, in a store that holds the row's country.\<close>

definition written_as ::
  "zone \<Rightarrow> (string \<Rightarrow> error + float64) \<Rightarrow> Database \<Rightarrow> Record \<Rightarrow> CaseRow \<Rightarrow> bool" where
  "written_as loc pf db r row =
     (Timestamp loc r = Inr (row_Date row) \<and> parse_cumulative pf r = Inr (row_Cumulative row) \<and>
      row_Cases row = rec_Cases r \<and> row_Deaths row = rec_Deaths r \<and>
      list_ex (\<lambda>c. ID c = row_CountryId row \<and> Code c = CountryCode r) (countries db))"

text \<open>
  The constraints the schema declares: the identifier is the primary key of
  \<open>Countries\<close>, and \<open>Cases.CountryId\<close> references it.
\<close>

definition primary_key_ok :: "Database \<Rightarrow> bool" where
  "primary_key_ok db = distinct (map ID (countries db))"

definition foreign_key_ok :: "Database \<Rightarrow> bool" where
  "foreign_key_ok db = list_all (\<lambda>r. row_CountryId r \<in> set (map ID (countries db))) (cases db)"

text \<open>
  The invariant of the importer's loop, for the store \<open>db0\<close> at the start of the
  call, the store \<open>db\<close> the loop has reached and the \<open>lastRecordCache\<close>: a code in
  the cache holds what \<open>db0\<close> answered, and for a code not yet in the cache the
  store still answers what \<open>db0\<close> answered.
\<close>

definition memo_ok :: "Database \<Rightarrow> Database \<Rightarrow> (string \<rightharpoonup> time) \<Rightarrow> bool" where
  "memo_ok db0 db cache =
     (\<forall>code. case cache code of
               Some w \<Rightarrow> w = LastRecordDate db0 code
             | None \<Rightarrow> LastRecordDate db code = LastRecordDate db0 code)"

section \<open>Sample data\<close>

text \<open>A small store and feed on which the theorems below are instantiated.\<close>

definition utc :: zone where
  "utc = (\<lambda>_. (0, - 9223372036854775808, 9223372036854775807))"

text \<open>
  The zone America/Santiago between April 2020 and April 2021: four hours west of
  UTC until 6 September 2020, 4:00 UTC, three hours west afterwards. On that day the
  local clock goes from 23:59:59 to 1:00:00.
\<close>

definition santiago :: zone where
  "santiago = (\<lambda>t. if t < 1599364800 then (- 14400, 1586055600, 1599364800)
                    else (- 10800, 1599364800, 1617505200))"

definition demo_usa :: Country where
  "demo_usa = \<lparr>ID = 1, Code = ''USA'', GeoID = ''US'', Name = ''United States'',
                Population = 329064917, Continent = ''America''\<rparr>"

definition demo_row :: "int \<Rightarrow> int \<Rightarrow> CaseRow" where
  "demo_row d n = \<lparr>row_Date = d, row_CountryId = 1, row_Cases = n, row_Deaths = 0,
                   row_Cumulative = 0\<rparr>"

definition demo_db :: Database where
  "demo_db = \<lparr>countries = [demo_usa],
               cases = [demo_row 1609632000 30, demo_row 1609459200 10, demo_row 1609545600 20],
               countryCache = Map.empty\<rparr>"


definition demo_record :: "string \<Rightarrow> string \<Rightarrow> string \<Rightarrow> int \<Rightarrow> string \<Rightarrow> Record" where
  "demo_record d m y n cum =
     \<lparr>Day = d, Month = m, Year = y, rec_Cases = n, rec_Deaths = n div 10,
      CountryName = ''Germany'', rec_GeoID = ''DE'', CountryCode = ''DEU'',
      rec_Population = 83019213, rec_Continent = ''Europe'', CumulativeCases = cum\<rparr>"

text \<open>A stand-in for \<open>strconv.ParseFloat\<close> that knows the two numerals of the sample feed.\<close>

definition demo_pf :: "string \<Rightarrow> error + float64" where
  "demo_pf s =
     (if s = ''5.5'' then Inr (11 / 2) else if s = ''6.1'' then Inr (61 / 10) else Inl ErrFloat)"

definition empty_db :: Database where
  "empty_db = \<lparr>countries = [], cases = [], countryCache = Map.empty\<rparr>"

definition demo_deu :: Country where
  "demo_deu = \<lparr>ID = 1, Code = ''DEU'', GeoID = ''DE'', Name = ''Germany'',
                Population = 83019213, Continent = ''Europe''\<rparr>"

definition demo_staged :: CovidStatisticsRecord where
  "demo_staged = \<lparr>Date = 1609459200, Cases = 10, Deaths = 1, Cumulative = 0,
                   Country = Some demo_deu\<rparr>"

definition demo_deu_db :: Database where
  "demo_deu_db =
     \<lparr>countries = [demo_deu],
      cases = [\<lparr>row_Date = 1609459200, row_CountryId = 1, row_Cases = 10, row_Deaths = 1,
                row_Cumulative = 0\<rparr>,
               \<lparr>row_Date = 1609545600, row_CountryId = 1, row_Cases = 20, row_Deaths = 2,
                row_Cumulative = 11 / 2\<rparr>],
      countryCache = Map.empty\<rparr>"

text \<open>The feed of Germany for 1 to 3 January 2021, and the same with 4 January added.\<close>

definition feed3 :: "Record list" where
  "feed3 = [demo_record ''1'' ''1'' ''2021'' 10 [], demo_record ''2'' ''1'' ''2021'' 20 ''5.5'',
            demo_record ''3'' ''1'' ''2021'' 30 ''6.1'']"

definition feed4 :: "Record list" where
  "feed4 = feed3 @ [demo_record ''4'' ''1'' ''2021'' 40 []]"

definition demo_old :: Record where
  "demo_old = demo_record ''31'' ''12'' ''1969'' 10 []"

text \<open>The feed of Germany for 5 and 6 September 2020.\<close>

definition feed_sep :: "Record list" where
  "feed_sep = [demo_record ''5'' ''9'' ''2020'' 10 [], demo_record ''6'' ''9'' ''2020'' 20 []]"

text \<open>A store whose only fact references a country row that is not there.\<close>

definition orphan_db :: Database where
  "orphan_db =
     \<lparr>countries = [],
      cases = [\<lparr>row_Date = 1609718400, row_CountryId = 1, row_Cases = 40, row_Deaths = 4,
                row_Cumulative = 0\<rparr>],
      countryCache = Map.empty\<rparr>"


section \<open>Lookup-kind inference\<close>






lemma set_joined:
  "set (joined db) = {(r, c). r \<in> set (cases db) \<and> c \<in> set (countries db) \<and> ID c = row_CountryId r}"
  by (auto simp: joined_def)








section \<open>Country versions\<close>

lemma newest_None: "newest cs = None \<longleftrightarrow> cs = []"
  by (induction cs) (auto split: option.splits)

lemma newest_Some:
  "newest cs = Some b \<Longrightarrow> b \<in> set cs \<and> (\<forall>c \<in> set cs. ID c \<le> ID b)"
proof (induction cs arbitrary: b)
  case Nil
  then show ?case by simp
next
  case (Cons a cs)
  show ?case
  proof (cases "newest cs")
    case None
    then have "cs = []" by (simp add: newest_None)
    with Cons.prems show ?thesis by simp
  next
    case (Some m)
    from Cons.IH [OF Some] have m: "m \<in> set cs" "\<forall>c \<in> set cs. ID c \<le> ID m" by simp_all
    show ?thesis
    proof (cases "ID a < ID m")
      case True
      with Some Cons.prems have "b = m" by simp
      with m True show ?thesis by auto
    next
      case False
      with Some Cons.prems have "b = a" by simp
      with m False show ?thesis by fastforce
    qed
  qed
qed

lemma newest_snoc:
  "\<forall>x \<in> set cs. ID x < ID c \<Longrightarrow> newest (cs @ [c]) = Some c"
  by (induction cs) auto

lemma fold_max_ge: "(a::int) \<le> fold max xs a"
  by (induction xs arbitrary: a) (auto intro: order_trans [OF max.cobounded2])

lemma fold_max_mem: "x \<in> set xs \<Longrightarrow> (x::int) \<le> fold max xs a"
proof (induction xs arbitrary: a)
  case Nil
  then show ?case by simp
next
  case (Cons y ys)
  show ?case
  proof (cases "x = y")
    case True
    have "y \<le> max y a" by simp
    also have "\<dots> \<le> fold max ys (max y a)" by (rule fold_max_ge)
    finally show ?thesis using True by simp
  next
    case False
    with Cons show ?thesis by simp
  qed
qed

lemma next_id_greater: "c \<in> set cs \<Longrightarrow> ID c < next_id cs"
  using fold_max_mem [of "ID c" "map ID cs" 0] by (simp add: next_id_def)

lemma next_id_positive: "0 < next_id cs"
  using fold_max_ge [of 0 "map ID cs"] by (simp add: next_id_def)

lemma Database_Country_after_insert:
  "Code c = code \<Longrightarrow> ID c = next_id (countries db) \<Longrightarrow>
   Database_Country (db\<lparr>countries := countries db @ [c], countryCache := m\<rparr>) code = Some c"
  by (simp add: Database_Country_def newest_snoc next_id_greater)

text \<open>
  Claim C4. \<open>PutCountry\<close> on a code without a row inserts a row and returns it.
  On a code whose current row (the one of greatest identifier) agrees in geo
  identifier, name, population and continent, it returns that row and leaves the
  store as it is. On a code whose current row differs in one of the four, it inserts
  a row of the same code with a strictly greater identifier and returns it. After an
  insertion the lookup of the current row of the code gives the new row, and a second
  call with the same attributes returns the same row and writes nothing.
\<close>

theorem PutCountry_versioning:
  "(Database_Country db code = None \<longrightarrow>
      fst (PutCountry db code g n p k) =
        \<lparr>ID = next_id (countries db), Code = code, GeoID = g, Name = n,
         Population = p, Continent = k\<rparr> \<and>
      countries (snd (PutCountry db code g n p k)) =
        countries db @ [fst (PutCountry db code g n p k)] \<and>
      cases (snd (PutCountry db code g n p k)) = cases db \<and>
      Database_Country (snd (PutCountry db code g n p k)) code =
        Some (fst (PutCountry db code g n p k))) \<and>
   (\<forall>cur. Database_Country db code = Some cur \<and> GeoID cur = g \<and> Name cur = n \<and>
          Population cur = p \<and> Continent cur = k \<longrightarrow>
      PutCountry db code g n p k = (cur, db)) \<and>
   (\<forall>cur. Database_Country db code = Some cur \<and>
          (GeoID cur \<noteq> g \<or> Name cur \<noteq> n \<or> Population cur \<noteq> p \<or> Continent cur \<noteq> k) \<longrightarrow>
      fst (PutCountry db code g n p k) =
        \<lparr>ID = next_id (countries db), Code = code, GeoID = g, Name = n,
         Population = p, Continent = k\<rparr> \<and>
      ID cur < ID (fst (PutCountry db code g n p k)) \<and>
      countries (snd (PutCountry db code g n p k)) =
        countries db @ [fst (PutCountry db code g n p k)] \<and>
      cases (snd (PutCountry db code g n p k)) = cases db \<and>
      Database_Country (snd (PutCountry db code g n p k)) code =
        Some (fst (PutCountry db code g n p k))) \<and>
   PutCountry (snd (PutCountry db code g n p k)) code g n p k = PutCountry db code g n p k"
proof -
  let ?new = "\<lparr>ID = next_id (countries db), Code = code, GeoID = g, Name = n,
         Population = p, Continent = k\<rparr>"
  let ?db' = "db\<lparr>countries := countries db @ [?new],
                 countryCache := (countryCache db)(next_id (countries db) \<mapsto> ?new)\<rparr>"
  have ins: "newCountryRecord db \<lparr>ID = 0, Code = code, GeoID = g, Name = n,
         Population = p, Continent = k\<rparr> = (?new, ?db')"
    by (simp add: newCountryRecord_def Let_def)
  have look: "Database_Country ?db' code = Some ?new"
    by (rule Database_Country_after_insert) simp_all
  have again: "PutCountry ?db' code g n p k = (?new, ?db')"
    using look by (simp add: PutCountry_def Database_Country_def)
  have c1: "Database_Country db code = None \<Longrightarrow> PutCountry db code g n p k = (?new, ?db')"
    using ins by (simp add: PutCountry_def Database_Country_def)
  have c2: "PutCountry db code g n p k = (cur, db)"
    if "Database_Country db code = Some cur" "GeoID cur = g" "Name cur = n"
      "Population cur = p" "Continent cur = k" for cur
    using that by (simp add: PutCountry_def Database_Country_def)
  have c3: "PutCountry db code g n p k = (?new, ?db') \<and> ID cur < next_id (countries db)"
    if "Database_Country db code = Some cur"
      "GeoID cur \<noteq> g \<or> Name cur \<noteq> n \<or> Population cur \<noteq> p \<or> Continent cur \<noteq> k" for cur
  proof -
    from that(1) have "cur \<in> set (countries db)"
      by (auto simp: Database_Country_def dest: newest_Some)
    then have "ID cur < next_id (countries db)" by (rule next_id_greater)
    moreover have "PutCountry db code g n p k = (?new, ?db')"
      using that ins by (auto simp: PutCountry_def Database_Country_def)
    ultimately show ?thesis by simp
  qed
  have idem: "PutCountry (snd (PutCountry db code g n p k)) code g n p k = PutCountry db code g n p k"
  proof (cases "Database_Country db code")
    case None
    then show ?thesis using c1 again by simp
  next
    case (Some cur)
    show ?thesis
    proof (cases "GeoID cur = g \<and> Name cur = n \<and> Population cur = p \<and> Continent cur = k")
      case True
      then show ?thesis using c2 [OF Some] by simp
    next
      case False
      then have "PutCountry db code g n p k = (?new, ?db')" using c3 [OF Some] by blast
      then show ?thesis using again by simp
    qed
  qed
  show ?thesis
  proof (intro conjI allI impI)
    fix cur
    assume "Database_Country db code = Some cur \<and>
          (GeoID cur \<noteq> g \<or> Name cur \<noteq> n \<or> Population cur \<noteq> p \<or> Continent cur \<noteq> k)"
    then have h: "PutCountry db code g n p k = (?new, ?db')" "ID cur < next_id (countries db)"
      using c3 by blast+
    show "fst (PutCountry db code g n p k) = ?new" using h by simp
    show "ID cur < ID (fst (PutCountry db code g n p k))" using h by simp
    show "countries (snd (PutCountry db code g n p k)) =
        countries db @ [fst (PutCountry db code g n p k)]" using h by simp
    show "cases (snd (PutCountry db code g n p k)) = cases db" using h by simp
    show "Database_Country (snd (PutCountry db code g n p k)) code =
        Some (fst (PutCountry db code g n p k))" using h look by simp
  next
    assume "Database_Country db code = None"
    then have h: "PutCountry db code g n p k = (?new, ?db')" by (rule c1)
    show "fst (PutCountry db code g n p k) = ?new" using h by simp
    show "countries (snd (PutCountry db code g n p k)) =
        countries db @ [fst (PutCountry db code g n p k)]" using h by simp
    show "cases (snd (PutCountry db code g n p k)) = cases db" using h by simp
    show "Database_Country (snd (PutCountry db code g n p k)) code =
        Some (fst (PutCountry db code g n p k))" using h look by simp
  next
    fix cur
    assume "Database_Country db code = Some cur \<and> GeoID cur = g \<and> Name cur = n \<and>
          Population cur = p \<and> Continent cur = k"
    then show "PutCountry db code g n p k = (cur, db)" using c2 by blast
  next
    show "PutCountry (snd (PutCountry db code g n p k)) code g n p k = PutCountry db code g n p k"
      by (rule idem)
  qed
qed


theorem PutCountry_versioning_witness:
  "Database_Country demo_db ''DEU'' = None \<and>
   fst (PutCountry demo_db ''DEU'' ''DE'' ''Germany'' 83019213 ''Europe'') =
     \<lparr>ID = next_id (countries demo_db), Code = ''DEU'', GeoID = ''DE'', Name = ''Germany'',
      Population = 83019213, Continent = ''Europe''\<rparr> \<and>
   next_id (countries demo_db) = 2 \<and>
   Database_Country (snd (PutCountry demo_db ''DEU'' ''DE'' ''Germany'' 83019213 ''Europe''))
     ''DEU'' = Some (fst (PutCountry demo_db ''DEU'' ''DE'' ''Germany'' 83019213 ''Europe'')) \<and>
   (Database_Country demo_db ''USA'' = Some demo_usa \<and> GeoID demo_usa = ''US'' \<and>
    Name demo_usa = ''United States'' \<and> Population demo_usa = 329064917 \<and>
    Continent demo_usa = ''America'') \<and>
   PutCountry demo_db ''USA'' ''US'' ''United States'' 329064917 ''America'' =
     (demo_usa, demo_db) \<and>
   Population demo_usa \<noteq> 331002651 \<and>
   ID demo_usa < ID (fst (PutCountry demo_db ''USA'' ''US'' ''United States'' 331002651 ''America'')) \<and>
   Database_Country (snd (PutCountry demo_db ''USA'' ''US'' ''United States'' 331002651 ''America''))
     ''USA'' = Some (fst (PutCountry demo_db ''USA'' ''US'' ''United States'' 331002651 ''America''))"
proof -
  have a: "Database_Country demo_db ''DEU'' = None"
    by code_simp
  have n: "next_id (countries demo_db) = 2"
    by code_simp
  have b: "Database_Country demo_db ''USA'' = Some demo_usa \<and> GeoID demo_usa = ''US'' \<and>
    Name demo_usa = ''United States'' \<and> Population demo_usa = 329064917 \<and>
    Continent demo_usa = ''America''"
    by code_simp
  have c: "Database_Country demo_db ''USA'' = Some demo_usa \<and>
    (GeoID demo_usa \<noteq> ''US'' \<or> Name demo_usa \<noteq> ''United States'' \<or>
     Population demo_usa \<noteq> 331002651 \<or> Continent demo_usa \<noteq> ''America'')"
    by code_simp
  note ra = PutCountry_versioning [of demo_db "''DEU''" "''DE''" "''Germany''" 83019213 "''Europe''",
      THEN conjunct1, THEN mp, OF a]
  note rb = PutCountry_versioning [of demo_db "''USA''" "''US''" "''United States''" 329064917
      "''America''", THEN conjunct2, THEN conjunct1, THEN spec, THEN mp, OF b]
  note rc = PutCountry_versioning [of demo_db "''USA''" "''US''" "''United States''" 331002651
      "''America''", THEN conjunct2, THEN conjunct2, THEN conjunct1, THEN spec, THEN mp, OF c]
  have d: "Population demo_usa \<noteq> 331002651"
    by (simp add: demo_usa_def)
  show ?thesis
    by (intro conjI a n b d rb ra [THEN conjunct1]
        ra [THEN conjunct2, THEN conjunct2, THEN conjunct2]
        rc [THEN conjunct2, THEN conjunct1]
        rc [THEN conjunct2, THEN conjunct2, THEN conjunct2, THEN conjunct2])
qed

section \<open>The batch insert\<close>

lemma insert_all_Inr_iff:
  "insert_all flt loc tbl records = Inr tbl' \<longleftrightarrow>
     (\<exists>rows. those (map (record_row loc) records) = Some rows \<and> tbl' = tbl @ rows \<and>
        (\<forall>row \<in> set rows. \<not> flt row) \<and> distinct (map row_key rows) \<and>
        set (map row_key rows) \<inter> set (map row_key tbl) = {})"
proof (induction records arbitrary: tbl)
  case Nil
  then show ?case by auto
next
  case (Cons r rs)
  show ?case
  proof (cases "Country r")
    case None
    then show ?thesis by (simp add: record_row_def)
  next
    case (Some c)
    let ?row = "to_row loc r c"
    show ?thesis
    proof (cases "flt ?row \<or> row_key ?row \<in> set (map row_key tbl)")
      case True
      then show ?thesis
        using Some by (auto simp: record_row_def exec_insert_def split: option.splits)
    next
      case False
      have step: "insert_all flt loc tbl (r # rs) = insert_all flt loc (tbl @ [?row]) rs"
        using Some False by (simp add: exec_insert_def)
      have th: "those (map (record_row loc) (r # rs)) =
          map_option ((#) ?row) (those (map (record_row loc) rs))"
        using Some by (simp add: record_row_def)
      show ?thesis
      proof
        assume "insert_all flt loc tbl (r # rs) = Inr tbl'"
        then have "insert_all flt loc (tbl @ [?row]) rs = Inr tbl'" by (simp only: step)
        then obtain rows' where r': "those (map (record_row loc) rs) = Some rows'"
          "tbl' = (tbl @ [?row]) @ rows'" "\<forall>row \<in> set rows'. \<not> flt row"
          "distinct (map row_key rows')"
          "set (map row_key rows') \<inter> set (map row_key (tbl @ [?row])) = {}"
          using Cons.IH [of "tbl @ [?row]"] by blast
        have "those (map (record_row loc) (r # rs)) = Some (?row # rows')"
          using th r'(1) by simp
        moreover have "tbl' = tbl @ (?row # rows')" using r'(2) by simp
        moreover have "\<forall>row \<in> set (?row # rows'). \<not> flt row" using r'(3) False by simp
        moreover have "distinct (map row_key (?row # rows'))" using r'(4,5) by auto
        moreover have "set (map row_key (?row # rows')) \<inter> set (map row_key tbl) = {}"
          using r'(5) False by auto
        ultimately show "\<exists>rows. those (map (record_row loc) (r # rs)) = Some rows \<and>
            tbl' = tbl @ rows \<and> (\<forall>row \<in> set rows. \<not> flt row) \<and>
            distinct (map row_key rows) \<and>
            set (map row_key rows) \<inter> set (map row_key tbl) = {}"
          by blast
      next
        assume "\<exists>rows. those (map (record_row loc) (r # rs)) = Some rows \<and>
            tbl' = tbl @ rows \<and> (\<forall>row \<in> set rows. \<not> flt row) \<and>
            distinct (map row_key rows) \<and>
            set (map row_key rows) \<inter> set (map row_key tbl) = {}"
        then obtain rows where r: "those (map (record_row loc) (r # rs)) = Some rows"
          "tbl' = tbl @ rows" "\<forall>row \<in> set rows. \<not> flt row"
          "distinct (map row_key rows)"
          "set (map row_key rows) \<inter> set (map row_key tbl) = {}"
          by blast
        from r(1) th obtain rows' where r': "those (map (record_row loc) rs) = Some rows'"
          "rows = ?row # rows'"
          by (cases "those (map (record_row loc) rs)") auto
        have "tbl' = (tbl @ [?row]) @ rows'" using r(2) r'(2) by simp
        moreover have "\<forall>row \<in> set rows'. \<not> flt row" using r(3) r'(2) by simp
        moreover have "distinct (map row_key rows')" using r(4) r'(2) by simp
        moreover have "set (map row_key rows') \<inter> set (map row_key (tbl @ [?row])) = {}"
          using r(4,5) r'(2) by auto
        ultimately have "insert_all flt loc (tbl @ [?row]) rs = Inr tbl'"
          using r'(1) Cons.IH [of "tbl @ [?row]"] by blast
        then show "insert_all flt loc tbl (r # rs) = Inr tbl'" by (simp only: step)
      qed
    qed
  qed
qed






section \<open>The result stream\<close>

lemma row_fails_cache_update:
  "\<not> rflt i \<Longrightarrow>
   row_fails sflt rflt (db\<lparr>countryCache := (countryCache db)(i \<mapsto> c)\<rparr>) = row_fails sflt rflt db"
  by (rule ext) (auto simp: row_fails_def)

lemma resolve_cache_update:
  "resolve db i = Some c \<Longrightarrow>
   resolve (db\<lparr>countryCache := (countryCache db)(i \<mapsto> c)\<rparr>) = resolve db"
  by (rule ext) (auto simp: resolve_def split: option.splits list.splits)

lemma row_result_cache_update:
  "resolve db i = Some c \<Longrightarrow>
   row_result (db\<lparr>countryCache := (countryCache db)(i \<mapsto> c)\<rparr>) = row_result db"
  by (rule ext) (simp add: row_result_def resolve_cache_update)

lemma CountryByID_cases:
  "(row_fails sflt rflt db r \<and> \<not> sflt r \<and>
      CountryByID rflt db (row_CountryId r) = (Inl ErrStorage, db)) \<or>
   (\<not> row_fails sflt rflt db r \<and>
      (\<exists>db'. CountryByID rflt db (row_CountryId r) = (Inr (resolve db (row_CountryId r)), db') \<and>
         row_fails sflt rflt db' = row_fails sflt rflt db \<and> row_result db' = row_result db)) \<or>
   sflt r"
proof (cases "sflt r")
  case True
  then show ?thesis by simp
next
  case ns: False
  show ?thesis
  proof (cases "countryCache db (row_CountryId r)")
    case (Some c)
    then show ?thesis using ns by (simp add: CountryByID_def row_fails_def resolve_def)
  next
    case None
    show ?thesis
    proof (cases "rflt (row_CountryId r)")
      case True
      then show ?thesis using ns None by (simp add: CountryByID_def row_fails_def)
    next
      case nr: False
      show ?thesis
      proof (cases "filter (\<lambda>c. ID c = row_CountryId r) (countries db)")
        case Nil
        then show ?thesis using ns None nr
          by (simp add: CountryByID_def row_fails_def resolve_def)
      next
        case (Cons c cs)
        then have res: "resolve db (row_CountryId r) = Some c"
          using None by (simp add: resolve_def)
        have "CountryByID rflt db (row_CountryId r) =
            (Inr (Some c), db\<lparr>countryCache := (countryCache db)(row_CountryId r \<mapsto> c)\<rparr>)"
          using None nr Cons by (simp add: CountryByID_def)
        moreover have "\<not> row_fails sflt rflt db r"
          using ns nr by (simp add: row_fails_def)
        ultimately show ?thesis
          using res row_fails_cache_update [where rflt = rflt and i = "row_CountryId r", OF nr]
            row_result_cache_update [OF res]
          by auto
      qed
    qed
  qed
qed

lemma produce_eq:
  "fst (produce nflt sflt rflt db rows) =
     map (row_result db)
       (takeWhile (\<lambda>r. \<not> row_fails sflt rflt db r) (takeWhile (\<lambda>r. \<not> nflt r) rows)) @
     (case dropWhile (\<lambda>r. \<not> row_fails sflt rflt db r) (takeWhile (\<lambda>r. \<not> nflt r) rows) of
        [] \<Rightarrow> []
      | r # _ \<Rightarrow> [error_result (row_error sflt r)])"
proof (induction rows arbitrary: db)
  case Nil
  then show ?case by simp
next
  case (Cons r rs)
  show ?case
  proof (cases "nflt r")
    case True
    then show ?thesis by simp
  next
    case step: False
    from CountryByID_cases [of sflt rflt db r]
    consider (scan) "sflt r"
      | (lookup) "\<not> sflt r" "row_fails sflt rflt db r"
          "CountryByID rflt db (row_CountryId r) = (Inl ErrStorage, db)"
      | (ok) db' where "\<not> sflt r" "\<not> row_fails sflt rflt db r"
          "CountryByID rflt db (row_CountryId r) = (Inr (resolve db (row_CountryId r)), db')"
          "row_fails sflt rflt db' = row_fails sflt rflt db" "row_result db' = row_result db"
      by (auto simp: row_fails_def)
    then show ?thesis
    proof cases
      case scan
      then show ?thesis
        using step by (simp add: row_fails_def row_error_def error_result_def)
    next
      case lookup
      then show ?thesis
        using step by (simp add: row_error_def error_result_def)
    next
      case ok
      have "fst (produce nflt sflt rflt db (r # rs)) =
          row_result db r # fst (produce nflt sflt rflt db' rs)"
        using step ok(1,3) by (simp add: row_result_def)
      then show ?thesis
        using step ok(2,4,5) Cons.IH [of db'] by simp
    qed
  qed
qed

lemma takeWhile_first_failure:
  "rows = pre @ r # post \<Longrightarrow> \<forall>x \<in> set pre. P x \<Longrightarrow> \<not> P r \<Longrightarrow>
   takeWhile P rows = pre \<and> dropWhile P rows = r # post"
  by (simp add: takeWhile_append2 dropWhile_append2)

lemma takeWhile_all: "\<forall>x \<in> set xs. P x \<Longrightarrow> takeWhile P xs = xs \<and> dropWhile P xs = []"
  by simp

text \<open>
  The two error paths of the loop that end in the stream: when no step of the cursor
  fails up to the row \<open>r\<close>, and \<open>r\<close> is the first row whose \<open>Scan\<close> or whose
  country lookup fails, the stream is the results of the rows before \<open>r\<close> followed
  by one element carrying the error of \<open>r\<close>.
\<close>

lemma RetrieveRecordsSince_terminal_error:
  assumes "query_rows loc db query since = pre @ r # post"
    and "\<forall>x \<in> set pre. \<not> nflt x \<and> \<not> row_fails sflt rflt db x"
    and "\<not> nflt r" and "row_fails sflt rflt db r"
  shows "fst (RetrieveRecordsSince nflt sflt rflt loc db query since) =
     map (row_result db) pre @ [\<lparr>Result = zero_record, Error = Some (row_error sflt r)\<rparr>]"
proof -
  let ?live = "takeWhile (\<lambda>r. \<not> nflt r) (query_rows loc db query since)"
  from assms(2) have p: "\<forall>x \<in> set pre. \<not> nflt x" by simp
  have live: "?live = pre @ r # takeWhile (\<lambda>r. \<not> nflt r) post"
    unfolding assms(1) using p assms(3) by (simp add: takeWhile_append2)
  have "takeWhile (\<lambda>r. \<not> row_fails sflt rflt db r) ?live = pre \<and>
      dropWhile (\<lambda>r. \<not> row_fails sflt rflt db r) ?live =
        r # takeWhile (\<lambda>r. \<not> nflt r) post"
    using live assms(2,4) by (intro takeWhile_first_failure) simp_all
  then show ?thesis
    by (simp add: RetrieveRecordsSince_def produce_eq error_result_def)
qed

text \<open>
  Claim C8 asks for one element carrying the error after any row-level read or decode
  error. The loop does send one for a failing \<open>Scan\<close> and for a failing country
  lookup, but not for a failing read of the next row: when the step of the cursor to
  the row \<open>r\<close> fails, after the rows before \<open>r\<close> were read and resolved, the stream
  is the results of those rows and ends without any element that carries an error.
\<close>

theorem RetrieveRecordsSince_read_error_silent:
  "query_rows loc db query since = pre @ r # post \<and>
   (\<forall>x \<in> set pre. \<not> nflt x \<and> \<not> row_fails sflt rflt db x) \<and> nflt r \<longrightarrow>
   fst (RetrieveRecordsSince nflt sflt rflt loc db query since) = map (row_result db) pre \<and>
   list_all (\<lambda>x. Error x = None) (fst (RetrieveRecordsSince nflt sflt rflt loc db query since))"
proof
  assume a: "query_rows loc db query since = pre @ r # post \<and>
   (\<forall>x \<in> set pre. \<not> nflt x \<and> \<not> row_fails sflt rflt db x) \<and> nflt r"
  let ?live = "takeWhile (\<lambda>r. \<not> nflt r) (query_rows loc db query since)"
  from a have rows: "query_rows loc db query since = pre @ r # post"
    and p: "\<forall>x \<in> set pre. \<not> nflt x" and q: "\<forall>x \<in> set pre. \<not> row_fails sflt rflt db x"
    and f: "nflt r"
    by simp_all
  have live: "?live = pre"
    unfolding rows using p f by (simp add: takeWhile_append2)
  have tw: "takeWhile (\<lambda>r. \<not> row_fails sflt rflt db r) pre = pre"
    and dw: "dropWhile (\<lambda>r. \<not> row_fails sflt rflt db r) pre = []"
    using q by simp_all
  have out: "fst (RetrieveRecordsSince nflt sflt rflt loc db query since) =
      map (row_result db) pre"
    unfolding RetrieveRecordsSince_def produce_eq live tw dw by simp
  moreover have "list_all (\<lambda>x. Error x = None) (map (row_result db) pre)"
    by (simp add: list_all_iff row_result_def)
  ultimately show "fst (RetrieveRecordsSince nflt sflt rflt loc db query since) =
      map (row_result db) pre \<and>
   list_all (\<lambda>x. Error x = None) (fst (RetrieveRecordsSince nflt sflt rflt loc db query since))"
    by simp
qed

theorem RetrieveRecordsSince_read_error_silent_witness:
  "query_rows utc demo_db (NewQuery id ''USA'') epochStart =
     [demo_row 1609459200 10] @ demo_row 1609545600 20 # [demo_row 1609632000 30] \<and>
   fst (RetrieveRecordsSince (\<lambda>r. row_Date r = 1609545600) (\<lambda>_. False) (\<lambda>_. False) utc demo_db
          (NewQuery id ''USA'') epochStart) =
     map (row_result demo_db) [demo_row 1609459200 10] \<and>
   map Error (fst (RetrieveRecords (\<lambda>r. row_Date r = 1609545600) (\<lambda>_. False) (\<lambda>_. False) utc
          demo_db (NewQuery id ''USA''))) = [None] \<and>
   map Error (fst (RetrieveRecords (\<lambda>_. False) (\<lambda>r. row_Date r = 1609545600) (\<lambda>_. False) utc
          demo_db (NewQuery id ''USA''))) = [None, Some ErrScan] \<and>
   map Error (fst (RetrieveRecords (\<lambda>_. False) (\<lambda>_. False) (\<lambda>i. i = 1) utc
          demo_db (NewQuery id ''USA''))) = [Some ErrStorage]"
proof -
  let ?nflt = "\<lambda>r. row_Date r = 1609545600"
  let ?q = "NewQuery id ''USA''"
  have a1: "query_rows utc demo_db ?q epochStart =
     [demo_row 1609459200 10] @ demo_row 1609545600 20 # [demo_row 1609632000 30]"
    by code_simp
  have a2: "\<forall>x \<in> set [demo_row 1609459200 10].
      \<not> ?nflt x \<and> \<not> row_fails (\<lambda>_. False) (\<lambda>_. False) demo_db x"
    by (simp add: row_fails_def demo_row_def)
  have a3: "?nflt (demo_row 1609545600 20)"
    by (simp add: demo_row_def)
  have e1: "map Error (fst (RetrieveRecords ?nflt (\<lambda>_. False) (\<lambda>_. False) utc demo_db ?q)) =
      [None]"
    by code_simp
  have e2: "map Error (fst (RetrieveRecords (\<lambda>_. False) ?nflt (\<lambda>_. False) utc demo_db ?q)) =
      [None, Some ErrScan]"
    by code_simp
  have e3: "map Error (fst (RetrieveRecords (\<lambda>_. False) (\<lambda>_. False) (\<lambda>i. i = 1) utc demo_db ?q)) =
      [Some ErrStorage]"
    by code_simp
  note r = RetrieveRecordsSince_read_error_silent [of utc demo_db ?q epochStart
      "[demo_row 1609459200 10]" "demo_row 1609545600 20" "[demo_row 1609632000 30]"
      ?nflt "\<lambda>_. False" "\<lambda>_. False",
      THEN mp, OF conjI [OF a1 conjI [OF a2 a3]], THEN conjunct1]
  show ?thesis
    by (intro conjI a1 r e1 e2 e3)
qed










section \<open>The import\<close>

lemma PutCountry_cases:
  "(\<exists>cur. PutCountry db code g n p k = (cur, db) \<and> cur \<in> set (countries db) \<and>
      Code cur = code \<and> GeoID cur = g \<and> Name cur = n \<and> Population cur = p \<and>
      Continent cur = k) \<or>
   (\<exists>m. PutCountry db code g n p k =
      (\<lparr>ID = next_id (countries db), Code = code, GeoID = g, Name = n, Population = p,
        Continent = k\<rparr>,
       db\<lparr>countries := countries db @ [\<lparr>ID = next_id (countries db), Code = code, GeoID = g,
            Name = n, Population = p, Continent = k\<rparr>], countryCache := m\<rparr>))"
proof (cases "newest (filter (\<lambda>c. Code c = code) (countries db))")
  case None
  then have "PutCountry db code g n p k =
      (\<lparr>ID = next_id (countries db), Code = code, GeoID = g, Name = n, Population = p,
        Continent = k\<rparr>,
       db\<lparr>countries := countries db @ [\<lparr>ID = next_id (countries db), Code = code, GeoID = g,
            Name = n, Population = p, Continent = k\<rparr>],
          countryCache := (countryCache db)(next_id (countries db) \<mapsto>
            \<lparr>ID = next_id (countries db), Code = code, GeoID = g,
            Name = n, Population = p, Continent = k\<rparr>)\<rparr>)"
    by (simp add: PutCountry_def newCountryRecord_def Let_def)
  then show ?thesis by blast
next
  case (Some cur)
  from newest_Some [OF Some] have mem: "cur \<in> set (countries db)" "Code cur = code"
    by auto
  show ?thesis
  proof (cases "GeoID cur \<noteq> g \<or> Name cur \<noteq> n \<or> Population cur \<noteq> p \<or> Continent cur \<noteq> k")
    case True
    then have "PutCountry db code g n p k =
      (\<lparr>ID = next_id (countries db), Code = code, GeoID = g, Name = n, Population = p,
        Continent = k\<rparr>,
       db\<lparr>countries := countries db @ [\<lparr>ID = next_id (countries db), Code = code, GeoID = g,
            Name = n, Population = p, Continent = k\<rparr>],
          countryCache := (countryCache db)(next_id (countries db) \<mapsto>
            \<lparr>ID = next_id (countries db), Code = code, GeoID = g,
            Name = n, Population = p, Continent = k\<rparr>)\<rparr>)"
      using Some by (auto simp: PutCountry_def newCountryRecord_def Let_def)
    then show ?thesis by blast
  next
    case False
    then have "PutCountry db code g n p k = (cur, db)"
      using Some by (simp add: PutCountry_def)
    with mem False show ?thesis by auto
  qed
qed

lemma PutCountry_frame:
  "cases (snd (PutCountry db code g n p k)) = cases db \<and>
   (\<exists>minted. countries (snd (PutCountry db code g n p k)) = countries db @ minted \<and>
      (\<forall>m \<in> set minted. ID m = next_id (countries db))) \<and>
   fst (PutCountry db code g n p k) \<in> set (countries (snd (PutCountry db code g n p k))) \<and>
   Code (fst (PutCountry db code g n p k)) = code \<and>
   GeoID (fst (PutCountry db code g n p k)) = g \<and>
   Name (fst (PutCountry db code g n p k)) = n \<and>
   Population (fst (PutCountry db code g n p k)) = p \<and>
   Continent (fst (PutCountry db code g n p k)) = k"
  using PutCountry_cases [of db code g n p k]
  by (elim disjE exE conjE) simp_all

lemma import_loop_frame:
  "cases (snd (import_loop loc pf db cache acc records)) = cases db \<and>
   (\<exists>minted. countries (snd (import_loop loc pf db cache acc records)) = countries db @ minted)"
proof (induction records arbitrary: db cache acc)
  case Nil
  then show ?case by simp
next
  case (Cons r rs)
  let ?put = "PutCountry db (CountryCode r) (rec_GeoID r) (CountryName r) (rec_Population r)
      (rec_Continent r)"
  from PutCountry_frame [of db "CountryCode r" "rec_GeoID r" "CountryName r" "rec_Population r"
      "rec_Continent r"]
  obtain m1 where p: "cases (snd ?put) = cases db" "countries (snd ?put) = countries db @ m1"
    by blast
  show ?case
  proof (cases "Timestamp loc r")
    case (Inl e)
    then show ?thesis by simp
  next
    case (Inr t)
    show ?thesis
    proof (cases "parse_cumulative pf r")
      case (Inl e)
      then show ?thesis using Inr by simp
    next
      case v: (Inr v)
      show ?thesis
      proof (cases "fst (lastRecordTime db cache (CountryCode r)) < t")
        case False
        then show ?thesis using Inr v Cons.IH by simp
      next
        case True
        let ?acc' = "acc @ [\<lparr>Date = t, Cases = rec_Cases r, Deaths = rec_Deaths r, Cumulative = v,
            Country = Some (fst ?put)\<rparr>]"
        let ?cache' = "snd (lastRecordTime db cache (CountryCode r))"
        have eq: "import_loop loc pf db cache acc (r # rs) =
            import_loop loc pf (snd ?put) ?cache' ?acc' rs"
          using Inr v True by simp
        from Cons.IH [of "snd ?put" ?cache' ?acc'] p
        show ?thesis unfolding eq by auto
      qed
    qed
  qed
qed


lemma import_loop_staged_countries:
  "import_loop loc pf db cache acc records = (Inr staged, db') \<Longrightarrow>
   \<forall>f \<in> set acc. \<exists>c \<in> set (countries db). Country f = Some c \<Longrightarrow>
   \<forall>f \<in> set staged. \<exists>c \<in> set (countries db'). Country f = Some c"
proof (induction records arbitrary: db cache acc)
  case Nil
  then show ?case by simp
next
  case (Cons r rs)
  let ?put = "PutCountry db (CountryCode r) (rec_GeoID r) (CountryName r) (rec_Population r)
      (rec_Continent r)"
  from PutCountry_frame [of db "CountryCode r" "rec_GeoID r" "CountryName r" "rec_Population r"
      "rec_Continent r"]
  obtain m1 where p: "countries (snd ?put) = countries db @ m1"
    "fst ?put \<in> set (countries (snd ?put))"
    by blast
  from Cons.prems(1) obtain t where t: "Timestamp loc r = Inr t"
    by (cases "Timestamp loc r") simp_all
  from Cons.prems(1) t obtain v where v: "parse_cumulative pf r = Inr v"
    by (cases "parse_cumulative pf r") simp_all
  show ?case
  proof (cases "fst (lastRecordTime db cache (CountryCode r)) < t")
    case False
    then have "import_loop loc pf db (snd (lastRecordTime db cache (CountryCode r))) acc rs =
        (Inr staged, db')"
      using Cons.prems(1) t v by simp
    from Cons.IH [OF this Cons.prems(2)] show ?thesis .
  next
    case True
    let ?acc' = "acc @ [\<lparr>Date = t, Cases = rec_Cases r, Deaths = rec_Deaths r, Cumulative = v,
        Country = Some (fst ?put)\<rparr>]"
    have run: "import_loop loc pf (snd ?put) (snd (lastRecordTime db cache (CountryCode r))) ?acc' rs =
        (Inr staged, db')"
      using Cons.prems(1) t v True by simp
    have "\<forall>f \<in> set ?acc'. \<exists>c \<in> set (countries (snd ?put)). Country f = Some c"
      using Cons.prems(2) p by auto
    from Cons.IH [OF run this] show ?thesis .
  qed
qed

lemma import_loop_invalid:
  "\<exists>r \<in> set records. \<not> valid_record loc pf r \<Longrightarrow>
   isl (fst (import_loop loc pf db cache acc records))"
proof (induction records arbitrary: db cache acc)
  case Nil
  then show ?case by simp
next
  case (Cons r rs)
  show ?case
  proof (cases "valid_record loc pf r")
    case False
    then show ?thesis
      by (auto simp: valid_record_def split: sum.splits)
  next
    case True
    with Cons.prems have "\<exists>r \<in> set rs. \<not> valid_record loc pf r" by simp
    note ih = Cons.IH [OF this]
    from True obtain t v where "Timestamp loc r = Inr t" "parse_cumulative pf r = Inr v"
      by (cases "Timestamp loc r"; cases "parse_cumulative pf r")
        (simp_all add: valid_record_def)
    then show ?thesis using ih by simp
  qed
qed

lemma Timestamp_isl:
  "isl (Timestamp loc r) \<longleftrightarrow>
     isl (ParseUint (Day r)) \<or> isl (ParseUint (Month r)) \<or> isl (ParseUint (Year r))"
  by (simp add: Timestamp_def split: sum.splits)

text \<open>
  Claim C6. When the day, month or year of some record of the feed does not parse,
  or its incidence field is not empty and does not parse, \<open>Import\<close> returns an
  error and the table of facts is the one before the call. An empty incidence field
  is the value 0, not an error.
\<close>

theorem Import_validation_aborts:
  "((\<exists>r \<in> set records. isl (ParseUint (Day r)) \<or> isl (ParseUint (Month r)) \<or>
        isl (ParseUint (Year r)) \<or>
        (CumulativeCases r \<noteq> [] \<and> isl (pf (CumulativeCases r)))) \<longrightarrow>
      (\<exists>e db'. Import flt loc pf db records = (Some e, db') \<and> cases db' = cases db)) \<and>
   (CumulativeCases r0 = [] \<longrightarrow> parse_cumulative pf r0 = Inr 0)"
proof (intro conjI impI)
  assume "\<exists>r \<in> set records. isl (ParseUint (Day r)) \<or> isl (ParseUint (Month r)) \<or>
        isl (ParseUint (Year r)) \<or>
        (CumulativeCases r \<noteq> [] \<and> isl (pf (CumulativeCases r)))"
  then have "\<exists>r \<in> set records. \<not> valid_record loc pf r"
    by (auto simp: valid_record_def Timestamp_isl parse_cumulative_def)
  then have "isl (fst (import_loop loc pf db Map.empty [] records))"
    by (rule import_loop_invalid)
  then obtain e db' where run: "import_loop loc pf db Map.empty [] records = (Inl e, db')"
    by (cases "import_loop loc pf db Map.empty [] records") (auto simp: isl_def)
  with import_loop_frame [of loc pf db Map.empty "[]" records] have "cases db' = cases db"
    by simp
  with run show "\<exists>e db'. Import flt loc pf db records = (Some e, db') \<and> cases db' = cases db"
    by (simp add: Import_def)
next
  assume "CumulativeCases r0 = []"
  then show "parse_cumulative pf r0 = Inr 0"
    by (simp add: parse_cumulative_def)
qed

theorem Import_validation_aborts_witness:
  "(\<exists>r \<in> set [demo_record ''1'' ''1'' ''2021'' 10 [], demo_record ''x'' ''1'' ''2021'' 20 ''5.5''].
      isl (ParseUint (Day r)) \<or> isl (ParseUint (Month r)) \<or> isl (ParseUint (Year r)) \<or>
      (CumulativeCases r \<noteq> [] \<and> isl (demo_pf (CumulativeCases r)))) \<and>
   (\<exists>e db'. Import (\<lambda>_. False) utc demo_pf empty_db
        [demo_record ''1'' ''1'' ''2021'' 10 [], demo_record ''x'' ''1'' ''2021'' 20 ''5.5''] =
        (Some e, db') \<and> cases db' = cases empty_db) \<and>
   fst (Import (\<lambda>_. False) utc demo_pf empty_db
        [demo_record ''1'' ''1'' ''2021'' 10 [], demo_record ''x'' ''1'' ''2021'' 20 ''5.5'']) =
     Some ErrSyntax \<and>
   (\<exists>r \<in> set [demo_record ''2'' ''1'' ''2021'' 20 ''abc''].
      isl (ParseUint (Day r)) \<or> isl (ParseUint (Month r)) \<or> isl (ParseUint (Year r)) \<or>
      (CumulativeCases r \<noteq> [] \<and> isl (demo_pf (CumulativeCases r)))) \<and>
   (\<exists>e db'. Import (\<lambda>_. False) utc demo_pf empty_db [demo_record ''2'' ''1'' ''2021'' 20 ''abc''] =
        (Some e, db') \<and> cases db' = cases empty_db) \<and>
   fst (Import (\<lambda>_. False) utc demo_pf empty_db [demo_record ''2'' ''1'' ''2021'' 20 ''abc'']) =
     Some ErrFloat \<and>
   CumulativeCases (demo_record ''1'' ''1'' ''2021'' 10 []) = [] \<and>
   parse_cumulative demo_pf (demo_record ''1'' ''1'' ''2021'' 10 []) = Inr 0"
proof -
  let ?a = "[demo_record ''1'' ''1'' ''2021'' 10 [], demo_record ''x'' ''1'' ''2021'' 20 ''5.5'']"
  let ?b = "[demo_record ''2'' ''1'' ''2021'' 20 ''abc'']"
  have a: "\<exists>r \<in> set ?a.
      isl (ParseUint (Day r)) \<or> isl (ParseUint (Month r)) \<or> isl (ParseUint (Year r)) \<or>
      (CumulativeCases r \<noteq> [] \<and> isl (demo_pf (CumulativeCases r)))"
    by code_simp
  have ea: "fst (Import (\<lambda>_. False) utc demo_pf empty_db ?a) = Some ErrSyntax"
    by code_simp
  have b: "\<exists>r \<in> set ?b.
      isl (ParseUint (Day r)) \<or> isl (ParseUint (Month r)) \<or> isl (ParseUint (Year r)) \<or>
      (CumulativeCases r \<noteq> [] \<and> isl (demo_pf (CumulativeCases r)))"
    by code_simp
  have eb: "fst (Import (\<lambda>_. False) utc demo_pf empty_db ?b) = Some ErrFloat"
    by code_simp
  have c: "CumulativeCases (demo_record ''1'' ''1'' ''2021'' 10 []) = []"
    by (simp add: demo_record_def)
  note ra = Import_validation_aborts [of ?a demo_pf "\<lambda>_. False" utc empty_db,
      THEN conjunct1, THEN mp, OF a]
  note rb = Import_validation_aborts [of ?b demo_pf "\<lambda>_. False" utc empty_db,
      THEN conjunct1, THEN mp, OF b]
  note rc = Import_validation_aborts [where pf = demo_pf and
      ?r0.0 = "demo_record ''1'' ''1'' ''2021'' 10 []", THEN conjunct2, THEN mp, OF c]
  show ?thesis
    by (intro conjI a ra ea b rb eb c rc)
qed

text \<open>
  Claim C9. When the loop of \<open>Import\<close> has staged its facts and the batch insert
  then fails, \<open>Import\<close> returns the error of the insert and the store the loop left:
  no fact is written, the rows of \<open>Countries\<close> before the call are still there
  followed by the versions minted in the loop, and the country of every staged fact
  is a stored row.
\<close>

theorem Import_keeps_minted_countries:
  "import_loop loc pf db Map.empty [] records = (Inr staged, db1) \<and>
   fst (ImportRecords flt loc db1 staged) = Some e \<longrightarrow>
   Import flt loc pf db records = (Some e, db1) \<and> cases db1 = cases db \<and>
   (\<exists>minted. countries db1 = countries db @ minted) \<and>
   (\<forall>f \<in> set staged. \<exists>c \<in> set (countries db1). Country f = Some c)"
proof (intro impI)
  assume a: "import_loop loc pf db Map.empty [] records = (Inr staged, db1) \<and>
   fst (ImportRecords flt loc db1 staged) = Some e"
  then have run: "import_loop loc pf db Map.empty [] records = (Inr staged, db1)"
    and err: "fst (ImportRecords flt loc db1 staged) = Some e"
    by simp_all
  from err have "ImportRecords flt loc db1 staged = (Some e, db1)"
    by (auto simp: ImportRecords_def split: sum.splits)
  with run have 1: "Import flt loc pf db records = (Some e, db1)"
    by (simp add: Import_def)
  from import_loop_frame [of loc pf db Map.empty "[]" records] run
  have 2: "cases db1 = cases db" "\<exists>minted. countries db1 = countries db @ minted"
    by simp_all
  from import_loop_staged_countries [OF run]
  have 3: "\<forall>f \<in> set staged. \<exists>c \<in> set (countries db1). Country f = Some c"
    by simp
  from 1 2 3 show "Import flt loc pf db records = (Some e, db1) \<and> cases db1 = cases db \<and>
   (\<exists>minted. countries db1 = countries db @ minted) \<and>
   (\<forall>f \<in> set staged. \<exists>c \<in> set (countries db1). Country f = Some c)"
    by blast
qed


theorem Import_keeps_minted_countries_witness:
  "fst (import_loop utc demo_pf empty_db Map.empty []
          [demo_record ''1'' ''1'' ''2021'' 10 [], demo_record ''1'' ''1'' ''2021'' 10 []]) =
     Inr [demo_staged, demo_staged] \<and>
   fst (ImportRecords (\<lambda>_. False) utc
          (snd (import_loop utc demo_pf empty_db Map.empty []
             [demo_record ''1'' ''1'' ''2021'' 10 [], demo_record ''1'' ''1'' ''2021'' 10 []]))
          [demo_staged, demo_staged]) = Some ErrConstraint \<and>
   Import (\<lambda>_. False) utc demo_pf empty_db
     [demo_record ''1'' ''1'' ''2021'' 10 [], demo_record ''1'' ''1'' ''2021'' 10 []] =
     (Some ErrConstraint,
      snd (import_loop utc demo_pf empty_db Map.empty []
             [demo_record ''1'' ''1'' ''2021'' 10 [], demo_record ''1'' ''1'' ''2021'' 10 []])) \<and>
   countries (snd (Import (\<lambda>_. False) utc demo_pf empty_db
     [demo_record ''1'' ''1'' ''2021'' 10 [], demo_record ''1'' ''1'' ''2021'' 10 []])) =
     [demo_deu] \<and>
   cases (snd (Import (\<lambda>_. False) utc demo_pf empty_db
     [demo_record ''1'' ''1'' ''2021'' 10 [], demo_record ''1'' ''1'' ''2021'' 10 []])) = []"
proof -
  let ?recs = "[demo_record ''1'' ''1'' ''2021'' 10 [], demo_record ''1'' ''1'' ''2021'' 10 []]"
  let ?X = "import_loop utc demo_pf empty_db Map.empty [] ?recs"
  have s: "fst ?X = Inr [demo_staged, demo_staged]"
    by code_simp
  have p1: "?X = (Inr [demo_staged, demo_staged], snd ?X)"
    by (rule prod_eqI) (simp_all only: fst_conv snd_conv s)
  have p2: "fst (ImportRecords (\<lambda>_. False) utc (snd ?X) [demo_staged, demo_staged]) =
      Some ErrConstraint"
    by code_simp
  have c1: "countries (snd (Import (\<lambda>_. False) utc demo_pf empty_db ?recs)) = [demo_deu]"
    by code_simp
  have c2: "cases (snd (Import (\<lambda>_. False) utc demo_pf empty_db ?recs)) = []"
    by code_simp
  note r = Import_keeps_minted_countries [of utc demo_pf empty_db ?recs
      "[demo_staged, demo_staged]" "snd ?X" "\<lambda>_. False" ErrConstraint,
      THEN mp, OF conjI [OF p1 p2], THEN conjunct1]
  show ?thesis
    by (intro conjI s p2 r c1 c2)
qed

lemma foreign_key_ok_iff:
  "foreign_key_ok db \<longleftrightarrow> (\<forall>r \<in> set (cases db). \<exists>c \<in> set (countries db). ID c = row_CountryId r)"
  by (force simp: foreign_key_ok_def list_all_iff image_iff)

lemma PutCountry_foreign_key:
  "foreign_key_ok db \<Longrightarrow> foreign_key_ok (snd (PutCountry db code g n p k))"
  using PutCountry_cases [of db code g n p k]
  by (elim disjE exE conjE) (auto simp: foreign_key_ok_iff)

lemma PutCountry_primary_key:
  "primary_key_ok db \<Longrightarrow> primary_key_ok (snd (PutCountry db code g n p k))"
proof -
  assume pk: "primary_key_ok db"
  have "next_id (countries db) \<notin> set (map ID (countries db))"
    using next_id_greater [of _ "countries db"] by fastforce
  then show ?thesis
    using PutCountry_cases [of db code g n p k] pk
    by (elim disjE exE conjE) (simp_all add: primary_key_ok_def)
qed

lemma joined_snoc_other:
  assumes "Code c \<noteq> code"
  shows "filter (\<lambda>(r, x). Code x = code)
       (joined (db\<lparr>countries := countries db @ [c], countryCache := m\<rparr>)) =
     filter (\<lambda>(r, x). Code x = code) (joined db)"
proof -
  have "filter (\<lambda>(r, x). Code x = code)
        (concat (map (\<lambda>r. map (Pair r) (filter (\<lambda>x. ID x = row_CountryId r) (cs @ [c]))) rs)) =
      filter (\<lambda>(r, x). Code x = code)
        (concat (map (\<lambda>r. map (Pair r) (filter (\<lambda>x. ID x = row_CountryId r) cs)) rs))"
    for rs cs
    using assms by (induction rs) auto
  then show ?thesis by (simp add: joined_def)
qed

lemma PutCountry_LastRecordDate_other:
  "code' \<noteq> code \<Longrightarrow>
   LastRecordDate (snd (PutCountry db code g n p k)) code' = LastRecordDate db code'"
  using PutCountry_cases [of db code g n p k]
  by (elim disjE exE conjE) (simp_all add: LastRecordDate_def joined_snoc_other)

lemma lastRecordTime_memo:
  assumes "memo_ok db0 db cache"
  shows "fst (lastRecordTime db cache code) = LastRecordDate db0 code \<and>
     memo_ok db0 db (snd (lastRecordTime db cache code)) \<and>
     snd (lastRecordTime db cache code) code \<noteq> None"
proof (cases "cache code")
  case None
  with assms have "LastRecordDate db code = LastRecordDate db0 code"
    unfolding memo_ok_def by (metis option.simps(4))
  with None assms show ?thesis
    by (auto simp: memo_ok_def lastRecordTime_def)
next
  case (Some w)
  with assms have "w = LastRecordDate db0 code"
    unfolding memo_ok_def by (metis option.simps(5))
  with Some assms show ?thesis
    by (simp add: lastRecordTime_def)
qed

lemma memo_ok_PutCountry:
  assumes "memo_ok db0 db cache" and "cache code \<noteq> None"
  shows "memo_ok db0 (snd (PutCountry db code g n p k)) cache"
  unfolding memo_ok_def
proof
  fix code'
  show "case cache code' of
      Some w \<Rightarrow> w = LastRecordDate db0 code'
    | None \<Rightarrow> LastRecordDate (snd (PutCountry db code g n p k)) code' = LastRecordDate db0 code'"
  proof (cases "cache code'")
    case None
    with assms(2) have "code' \<noteq> code" by auto
    then have "LastRecordDate (snd (PutCountry db code g n p k)) code' = LastRecordDate db code'"
      by (rule PutCountry_LastRecordDate_other)
    moreover from assms(1) None have "LastRecordDate db code' = LastRecordDate db0 code'"
      unfolding memo_ok_def by (metis option.simps(4))
    ultimately show ?thesis using None by simp
  next
    case (Some w)
    with assms(1) have "w = LastRecordDate db0 code'"
      unfolding memo_ok_def by (metis option.simps(5))
    with Some show ?thesis by simp
  qed
qed

lemma memo_ok_start: "memo_ok db db Map.empty"
  by (simp add: memo_ok_def)

text \<open>
  What the loop of \<open>Import\<close> does on a feed of valid records, from any state that
  satisfies the invariant: it stages, after the facts it holds, the records that are
  after the watermark of the store \<open>db0\<close> the call started from.
\<close>

lemma import_loop_spec:
  assumes "\<forall>r \<in> set records. valid_record loc pf r" and "memo_ok db0 db cache"
  shows "\<exists>staged db'. import_loop loc pf db cache acc records = (Inr (acc @ staged), db') \<and>
     cases db' = cases db \<and> (\<exists>minted. countries db' = countries db @ minted) \<and>
     (primary_key_ok db \<longrightarrow> primary_key_ok db') \<and>
     list_all2 (stages loc pf) (filter (admitted loc db0) records) staged \<and>
     (\<forall>f \<in> set staged. \<exists>c \<in> set (countries db'). Country f = Some c)"
  using assms
proof (induction records arbitrary: db cache acc)
  case Nil
  then show ?case by simp
next
  case (Cons r rs)
  let ?code = "CountryCode r"
  let ?put = "PutCountry db ?code (rec_GeoID r) (CountryName r) (rec_Population r)
      (rec_Continent r)"
  let ?cache' = "snd (lastRecordTime db cache ?code)"
  from Cons.prems(1) obtain t v where t: "Timestamp loc r = Inr t"
    and v: "parse_cumulative pf r = Inr v"
    by (cases "Timestamp loc r"; cases "parse_cumulative pf r")
      (simp_all add: valid_record_def)
  from Cons.prems(1) have valid: "\<forall>r \<in> set rs. valid_record loc pf r" by simp
  from lastRecordTime_memo [OF Cons.prems(2), of ?code]
  have w: "fst (lastRecordTime db cache ?code) = LastRecordDate db0 ?code"
    and c': "memo_ok db0 db ?cache'" and seen: "?cache' ?code \<noteq> None"
    by simp_all
  show ?case
  proof (cases "LastRecordDate db0 ?code < t")
    case False
    then have adm: "\<not> admitted loc db0 r" using t by (simp add: admitted_def)
    have eq: "import_loop loc pf db cache acc (r # rs) = import_loop loc pf db ?cache' acc rs"
      using t v w False by simp
    from Cons.IH [OF valid c', of acc] show ?thesis
      unfolding eq using adm by simp
  next
    case True
    then have adm: "admitted loc db0 r" using t by (simp add: admitted_def)
    let ?f = "\<lparr>Date = t, Cases = rec_Cases r, Deaths = rec_Deaths r, Cumulative = v,
        Country = Some (fst ?put)\<rparr>"
    have eq: "import_loop loc pf db cache acc (r # rs) =
        import_loop loc pf (snd ?put) ?cache' (acc @ [?f]) rs"
      using t v w True by simp
    from PutCountry_frame [of db ?code "rec_GeoID r" "CountryName r" "rec_Population r"
        "rec_Continent r"]
    obtain m1 where p: "cases (snd ?put) = cases db" "countries (snd ?put) = countries db @ m1"
      "fst ?put \<in> set (countries (snd ?put))" "Code (fst ?put) = ?code"
      "GeoID (fst ?put) = rec_GeoID r" "Name (fst ?put) = CountryName r"
      "Population (fst ?put) = rec_Population r" "Continent (fst ?put) = rec_Continent r"
      by blast
    have c'': "memo_ok db0 (snd ?put) ?cache'"
      using c' seen by (rule memo_ok_PutCountry)
    from Cons.IH [OF valid c'', of "acc @ [?f]"]
    obtain staged' db' minted' where ih:
      "import_loop loc pf (snd ?put) ?cache' (acc @ [?f]) rs = (Inr ((acc @ [?f]) @ staged'), db')"
      "cases db' = cases (snd ?put)" "countries db' = countries (snd ?put) @ minted'"
      "primary_key_ok (snd ?put) \<longrightarrow> primary_key_ok db'"
      "list_all2 (stages loc pf) (filter (admitted loc db0) rs) staged'"
      "\<forall>f \<in> set staged'. \<exists>c \<in> set (countries db'). Country f = Some c"
      by blast
    have st: "stages loc pf r ?f"
      using t v p(4-8) by (simp add: stages_def)
    have 1: "import_loop loc pf db cache acc (r # rs) = (Inr (acc @ (?f # staged')), db')"
      unfolding eq using ih(1) by simp
    have 2: "cases db' = cases db" using ih(2) p(1) by simp
    have 3: "\<exists>minted. countries db' = countries db @ minted" using ih(3) p(2) by simp
    have 5: "primary_key_ok db \<longrightarrow> primary_key_ok db'"
      using ih(4) PutCountry_primary_key by blast
    have 7: "list_all2 (stages loc pf) (filter (admitted loc db0) (r # rs)) (?f # staged')"
      using ih(5) st adm by simp
    have 8: "\<forall>f \<in> set (?f # staged'). \<exists>c \<in> set (countries db'). Country f = Some c"
      using ih(6) ih(3) p(3) by simp
    from 1 2 3 5 7 8 show ?thesis by blast
  qed
qed

section \<open>Incremental import\<close>

text \<open>
  In a zone with one offset every local midnight exists: the timestamp of every record
  is the midnight of its own day.
\<close>

lemma fixed_zone_wall: "wall_to_unix (\<lambda>_. (off, a, b)) u = u - off"
  by (simp add: wall_to_unix_def Let_def)

lemma time_Date_fixed: "\<exists>d. time_Date (\<lambda>_. (off, a, b)) y m d' = d * 86400 - off"
  unfolding time_Date_def Let_def fixed_zone_wall by (rule exI) (rule refl)

lemma fixed_zone_midnight: "midnight_ok (\<lambda>_. (off, a, b)) r"
proof (cases "Timestamp (\<lambda>_. (off, a, b)) r")
  case (Inl e)
  then show ?thesis by (simp add: midnight_ok_def)
next
  case (Inr t)
  then obtain y m d' where "t = time_Date (\<lambda>_. (off, a, b)) y m d'"
    by (auto simp: Timestamp_def split: sum.splits)
  with time_Date_fixed [of off a b y m d'] obtain d where "t = d * 86400 - off"
    by auto
  then have "normalizeDate (\<lambda>_. (off, a, b)) t = t"
    by (simp add: normalizeDate_def fixed_zone_wall)
  with Inr show ?thesis by (simp add: midnight_ok_def)
qed

lemma LastRecordDate_ge:
  assumes "r \<in> set (cases db)" and "c \<in> set (countries db)" and "ID c = row_CountryId r"
    and "Code c = code"
  shows "row_Date r \<le> LastRecordDate db code"
proof -
  let ?ds = "map (row_Date \<circ> fst) (filter (\<lambda>(r, c). Code c = code) (joined db))"
  have "(r, c) \<in> set (joined db)" using assms(1-3) by (simp add: set_joined)
  then have mem: "row_Date r \<in> set ?ds" using assms(4) by force
  then obtain d ds where ds: "?ds = d # ds" by (cases ?ds) auto
  then have "LastRecordDate db code = Max (set ?ds)" by (simp add: LastRecordDate_def)
  moreover have "row_Date r \<le> Max (set ?ds)" using mem by (intro Max_ge) simp_all
  ultimately show ?thesis by simp
qed

lemma LastRecordDate_no_facts:
  "list_all (\<lambda>(r, c). Code c \<noteq> code) (joined db) \<Longrightarrow> LastRecordDate db code = epochStart"
proof -
  assume "list_all (\<lambda>(r, c). Code c \<noteq> code) (joined db)"
  then have "filter (\<lambda>(r, c). Code c = code) (joined db) = []"
    by (auto simp: list_all_iff filter_empty_conv)
  then show ?thesis by (simp add: LastRecordDate_def)
qed

lemma list_all2_in_set2:
  "list_all2 P xs ys \<Longrightarrow> y \<in> set ys \<Longrightarrow> \<exists>x \<in> set xs. P x y"
  by (induction rule: list_all2_induct) auto

lemma list_all2_in_set1:
  "list_all2 P xs ys \<Longrightarrow> x \<in> set xs \<Longrightarrow> \<exists>y \<in> set ys. P x y"
  by (induction rule: list_all2_induct) auto

lemma list_all2_with_set2:
  "list_all2 P xs ys \<Longrightarrow> \<forall>y \<in> set ys. Q y \<Longrightarrow> list_all2 (\<lambda>x y. P x y \<and> Q y) xs ys"
  by (induction rule: list_all2_induct) auto

lemma those_record_rows:
  "\<forall>f \<in> set staged. \<exists>c. Country f = Some c \<Longrightarrow>
   those (map (record_row loc) staged) = Some (map (\<lambda>f. to_row loc f (the (Country f))) staged)"
  by (induction staged) (auto simp: record_row_def)

lemma stages_written_as:
  "stages loc pf r f \<Longrightarrow> midnight_ok loc r \<Longrightarrow> Country f = Some c \<Longrightarrow>
   c \<in> set (countries db) \<Longrightarrow> written_as loc pf db r (to_row loc f c)"
  by (auto simp: stages_def written_as_def to_row_def midnight_ok_def list_ex_iff)

lemma written_as_country:
  "written_as loc pf db r row \<Longrightarrow>
   \<exists>c \<in> set (countries db). ID c = row_CountryId row \<and> Code c = CountryCode r"
  by (auto simp: written_as_def list_ex_iff)

lemma primary_key_unique:
  "primary_key_ok db \<Longrightarrow> c \<in> set (countries db) \<Longrightarrow> c' \<in> set (countries db) \<Longrightarrow>
   ID c = ID c' \<Longrightarrow> c = c'"
  by (auto simp: primary_key_ok_def distinct_map dest: inj_onD)

lemma written_keys_distinct:
  assumes "list_all2 (written_as loc pf db) records rows" and "increasing_per_code loc records"
    and "primary_key_ok db"
  shows "distinct (map row_key rows)"
  using assms
proof (induction rule: list_all2_induct)
  case Nil
  then show ?case by simp
next
  case (Cons r rs row rows')
  have "row_key row \<notin> set (map row_key rows')"
  proof
    assume "row_key row \<in> set (map row_key rows')"
    then obtain row' where row': "row' \<in> set rows'" "row_key row' = row_key row" by auto
    from list_all2_in_set2 [OF Cons.hyps(2) row'(1)]
    obtain r' where r': "r' \<in> set rs" "written_as loc pf db r' row'" by blast
    from written_as_country [OF Cons.hyps(1)] obtain c where
      c: "c \<in> set (countries db)" "ID c = row_CountryId row" "Code c = CountryCode r" by blast
    from written_as_country [OF r'(2)] obtain c' where
      c': "c' \<in> set (countries db)" "ID c' = row_CountryId row'" "Code c' = CountryCode r'"
      by blast
    from row'(2) have same: "row_Date row' = row_Date row" "row_CountryId row' = row_CountryId row"
      by (simp_all add: row_key_def)
    with c c' Cons.prems(2) have "c = c'" by (intro primary_key_unique [of db]) simp_all
    with c(3) c'(3) have code: "CountryCode r' = CountryCode r" by simp
    from Cons.hyps(1) r'(2) have ts: "Timestamp loc r = Inr (row_Date row)"
      "Timestamp loc r' = Inr (row_Date row')"
      by (simp_all add: written_as_def)
    from Cons.prems(1) r'(1) code have
      "(case Timestamp loc r of
          Inr a \<Rightarrow> (case Timestamp loc r' of Inr b \<Rightarrow> a < b | Inl _ \<Rightarrow> False)
        | Inl _ \<Rightarrow> False)"
      by (auto simp: list_all_iff)
    with ts same show False by simp
  qed
  moreover have "distinct (map row_key rows')"
    using Cons by simp
  ultimately show ?case by simp
qed

lemma written_keys_fresh:
  assumes w: "list_all2 (written_as loc pf db1) records rows"
    and pk: "primary_key_ok db1" and fk: "foreign_key_ok db"
    and ext: "countries db1 = countries db @ minted"
    and adm: "\<forall>r \<in> set records. admitted loc db r"
  shows "set (map row_key rows) \<inter> set (map row_key (cases db)) = {}"
proof (rule ccontr)
  assume "set (map row_key rows) \<inter> set (map row_key (cases db)) \<noteq> {}"
  then obtain row x where row: "row \<in> set rows" and x: "x \<in> set (cases db)"
    and key: "row_key x = row_key row"
    by (auto simp: image_iff) metis
  from list_all2_in_set2 [OF w row] obtain r where r: "r \<in> set records"
    "written_as loc pf db1 r row" by blast
  from written_as_country [OF r(2)] obtain c where
    c: "c \<in> set (countries db1)" "ID c = row_CountryId row" "Code c = CountryCode r" by blast
  from fk x obtain c0 where c0: "c0 \<in> set (countries db)" "ID c0 = row_CountryId x"
    by (auto simp: foreign_key_ok_iff)
  from key have same: "row_Date x = row_Date row" "row_CountryId x = row_CountryId row"
    by (simp_all add: row_key_def)
  have "c0 \<in> set (countries db1)" using c0(1) ext by simp
  with pk c c0 same have "c0 = c" by (intro primary_key_unique [of db1]) simp_all
  with c(3) have "Code c0 = CountryCode r" by simp
  from LastRecordDate_ge [OF x c0(1) c0(2) this]
  have le: "row_Date x \<le> LastRecordDate db (CountryCode r)" .
  from r(2) have "Timestamp loc r = Inr (row_Date row)" by (simp add: written_as_def)
  with adm r(1) have "LastRecordDate db (CountryCode r) < row_Date row"
    by (auto simp: admitted_def)
  with le same show False by simp
qed

lemma import_loop_all_skipped:
  "\<forall>r \<in> set records. valid_record loc pf r \<and> \<not> admitted loc db r \<Longrightarrow> memo_ok db db cache \<Longrightarrow>
   import_loop loc pf db cache acc records = (Inr acc, db)"
proof (induction records arbitrary: cache)
  case Nil
  then show ?case by simp
next
  case (Cons r rs)
  from Cons.prems(1) obtain t v where t: "Timestamp loc r = Inr t"
    and v: "parse_cumulative pf r = Inr v"
    by (cases "Timestamp loc r"; cases "parse_cumulative pf r")
      (simp_all add: valid_record_def)
  from lastRecordTime_memo [OF Cons.prems(2), of "CountryCode r"]
  have w: "fst (lastRecordTime db cache (CountryCode r)) = LastRecordDate db (CountryCode r)"
    and c': "memo_ok db db (snd (lastRecordTime db cache (CountryCode r)))"
    by simp_all
  from Cons.prems(1) t have "\<not> LastRecordDate db (CountryCode r) < t"
    by (simp add: admitted_def)
  then have "import_loop loc pf db cache acc (r # rs) =
      import_loop loc pf db (snd (lastRecordTime db cache (CountryCode r))) acc rs"
    using t v w by simp
  also have "\<dots> = (Inr acc, db)"
    using Cons.prems(1) by (intro Cons.IH c') simp
  finally show ?case .
qed

text \<open>
  Claim C3, as the code has it. When every record of the feed is valid, the loop of
  \<open>Import\<close> stages, in feed order, exactly the records whose date is strictly after
  the last fact date the store held for their country code when the call started:
  the importer asks the store once per code and keeps the answer, whatever the loop
  writes afterwards. For a code without stored facts that date is the epoch, so a
  record of such a code is staged exactly when its date is strictly after the epoch.
\<close>

theorem Import_stages_after_watermark:
  "((\<forall>r \<in> set records. valid_record loc pf r) \<longrightarrow>
      (\<exists>staged db'. import_loop loc pf db Map.empty [] records = (Inr staged, db') \<and>
         list_all2 (stages loc pf) (filter (admitted loc db) records) staged)) \<and>
   (admitted loc db r \<longleftrightarrow>
      (\<exists>t. Timestamp loc r = Inr t \<and> LastRecordDate db (CountryCode r) < t)) \<and>
   (list_all (\<lambda>(x, c). Code c \<noteq> code) (joined db) \<longrightarrow> LastRecordDate db code = epochStart)"
proof (intro conjI impI)
  assume "\<forall>r \<in> set records. valid_record loc pf r"
  from import_loop_spec [OF this memo_ok_start [of db], where acc = "[]"]
  obtain staged db' where
    "import_loop loc pf db Map.empty [] records = (Inr ([] @ staged), db')"
    "list_all2 (stages loc pf) (filter (admitted loc db) records) staged"
    by blast
  then have "import_loop loc pf db Map.empty [] records = (Inr staged, db') \<and>
      list_all2 (stages loc pf) (filter (admitted loc db) records) staged"
    by simp
  then show "\<exists>staged db'. import_loop loc pf db Map.empty [] records = (Inr staged, db') \<and>
         list_all2 (stages loc pf) (filter (admitted loc db) records) staged"
    by blast
next
  show "admitted loc db r \<longleftrightarrow>
      (\<exists>t. Timestamp loc r = Inr t \<and> LastRecordDate db (CountryCode r) < t)"
    by (cases "Timestamp loc r") (simp_all add: admitted_def)
next
  assume "list_all (\<lambda>(x, c). Code c \<noteq> code) (joined db)"
  then show "LastRecordDate db code = epochStart" by (rule LastRecordDate_no_facts)
qed

text \<open>
  The first instance is a store whose fact of 4 January 2021 references a country row
  that does not exist yet: the first record of the feed mints that row, the store then
  answers 4 January for the code, and the loop still stages the three records, from
  the answer it kept.
\<close>

theorem Import_stages_after_watermark_witness:
  "(\<exists>staged db'. import_loop utc demo_pf orphan_db Map.empty [] feed3 = (Inr staged, db') \<and>
      list_all2 (stages utc demo_pf) (filter (admitted utc orphan_db) feed3) staged) \<and>
   LastRecordDate orphan_db ''DEU'' = epochStart \<and>
   filter (admitted utc orphan_db) feed3 = feed3 \<and>
   LastRecordDate (snd (import_loop utc demo_pf orphan_db Map.empty [] feed3)) ''DEU'' =
     1609718400 \<and>
   map Date (projr (fst (import_loop utc demo_pf orphan_db Map.empty [] feed3))) =
     [1609459200, 1609545600, 1609632000] \<and>
   (\<exists>staged db'. import_loop utc demo_pf demo_deu_db Map.empty [] feed4 = (Inr staged, db') \<and>
      list_all2 (stages utc demo_pf) (filter (admitted utc demo_deu_db) feed4) staged) \<and>
   LastRecordDate demo_deu_db ''DEU'' = 1609545600 \<and>
   filter (admitted utc demo_deu_db) feed4 =
     [demo_record ''3'' ''1'' ''2021'' 30 ''6.1'', demo_record ''4'' ''1'' ''2021'' 40 []] \<and>
   map Date (projr (fst (import_loop utc demo_pf demo_deu_db Map.empty [] feed4))) =
     [1609632000, 1609718400] \<and>
   list_all (\<lambda>(x, c). Code c \<noteq> ''DEU'') (joined empty_db) \<and>
   LastRecordDate empty_db ''DEU'' = epochStart"
proof -
  have a3: "\<forall>r \<in> set feed3. valid_record utc demo_pf r"
    by code_simp
  have o1: "LastRecordDate orphan_db ''DEU'' = epochStart"
    by code_simp
  have o2: "filter (admitted utc orphan_db) feed3 = feed3"
    by code_simp
  have o3: "LastRecordDate (snd (import_loop utc demo_pf orphan_db Map.empty [] feed3)) ''DEU'' =
     1609718400"
    by code_simp
  have o4: "map Date (projr (fst (import_loop utc demo_pf orphan_db Map.empty [] feed3))) =
     [1609459200, 1609545600, 1609632000]"
    by code_simp
  have a4: "\<forall>r \<in> set feed4. valid_record utc demo_pf r"
    by code_simp
  have b: "LastRecordDate demo_deu_db ''DEU'' = 1609545600"
    by code_simp
  have c: "filter (admitted utc demo_deu_db) feed4 =
     [demo_record ''3'' ''1'' ''2021'' 30 ''6.1'', demo_record ''4'' ''1'' ''2021'' 40 []]"
    by code_simp
  have d: "map Date (projr (fst (import_loop utc demo_pf demo_deu_db Map.empty [] feed4))) =
     [1609632000, 1609718400]"
    by code_simp
  have e: "list_all (\<lambda>(x, c). Code c \<noteq> ''DEU'') (joined empty_db)"
    by code_simp
  note ro = Import_stages_after_watermark [of feed3 utc demo_pf orphan_db,
      THEN conjunct1, THEN mp, OF a3]
  note ra = Import_stages_after_watermark [of feed4 utc demo_pf demo_deu_db,
      THEN conjunct1, THEN mp, OF a4]
  note rb = Import_stages_after_watermark [where db = empty_db and code = "''DEU''",
      THEN conjunct2, THEN conjunct2, THEN mp, OF e]
  show ?thesis
    by (intro conjI ro o1 o2 o3 o4 ra b c d e rb)
qed

text \<open>
  Against claim C3 as stated: a valid record dated 31 December 1969, for a code
  without stored facts, is not staged, since its date is not after the epoch.
\<close>

theorem Import_epoch_counterexample:
  "valid_record utc demo_pf demo_old \<and> Timestamp utc demo_old = Inr (- 86400) \<and>
   joined empty_db = [] \<and> LastRecordDate empty_db (CountryCode demo_old) = epochStart \<and>
   fst (import_loop utc demo_pf empty_db Map.empty [] [demo_old]) = Inr []"
  by code_simp

lemma written_as_countries:
  "countries db' = countries db \<Longrightarrow> written_as loc pf db' = written_as loc pf db"
  by (intro ext) (simp add: written_as_def)

lemma list_all2_with_set1:
  "list_all2 P xs ys \<Longrightarrow> \<forall>x \<in> set xs. Q x \<Longrightarrow> list_all2 (\<lambda>x y. P x y \<and> Q x) xs ys"
  by (induction rule: list_all2_induct) auto

lemma increasing_per_code_filter:
  "increasing_per_code loc rs \<Longrightarrow> increasing_per_code loc (filter P rs)"
  by (induction rs) (auto simp: list_all_iff)

lemma LastRecordDate_eq:
  "LastRecordDate db code =
     (if map (row_Date \<circ> fst) (filter (\<lambda>(r, c). Code c = code) (joined db)) = [] then epochStart
      else Max (set (map (row_Date \<circ> fst) (filter (\<lambda>(r, c). Code c = code) (joined db)))))"
  by (cases "map (row_Date \<circ> fst) (filter (\<lambda>(r, c). Code c = code) (joined db))")
    (simp_all add: LastRecordDate_def)

text \<open>
  An import never lowers the last fact date of a code: the facts of the store stay,
  and a fact it adds for the code is after the date the store held.
\<close>

lemma LastRecordDate_grows:
  assumes pk: "primary_key_ok db1" and fk: "foreign_key_ok db"
    and ext: "countries db1 = countries db @ minted"
    and cs: "cases db1 = cases db @ rows"
    and w: "list_all2 (written_as loc pf db1) recs rows"
    and adm: "\<forall>r \<in> set recs. admitted loc db r"
  shows "LastRecordDate db code \<le> LastRecordDate db1 code"
proof -
  let ?ds = "map (row_Date \<circ> fst) (filter (\<lambda>(r, c). Code c = code) (joined db))"
  let ?ds1 = "map (row_Date \<circ> fst) (filter (\<lambda>(r, c). Code c = code) (joined db1))"
  have sub: "set ?ds \<subseteq> set ?ds1"
    using ext cs by (auto simp: set_joined)
  have new: "d \<in> set ?ds \<or> LastRecordDate db code < d" if "d \<in> set ?ds1" for d
  proof -
    from that obtain r c where r: "r \<in> set (cases db1)" and c: "c \<in> set (countries db1)"
      and rc: "ID c = row_CountryId r" and code: "Code c = code" and d: "d = row_Date r"
      by (auto simp: set_joined)
    from r cs consider "r \<in> set (cases db)" | "r \<in> set rows" by auto
    then show ?thesis
    proof cases
      case 1
      with fk obtain c0 where c0: "c0 \<in> set (countries db)" "ID c0 = row_CountryId r"
        by (auto simp: foreign_key_ok_iff)
      have "c0 \<in> set (countries db1)" using c0(1) ext by simp
      with pk c c0(2) rc have "c0 = c" by (intro primary_key_unique [of db1]) simp_all
      with 1 c0 code have "(r, c) \<in> set (joined db) \<and> Code c = code"
        by (simp add: set_joined)
      then have "row_Date r \<in> set ?ds" by force
      with d show ?thesis by simp
    next
      case 2
      from list_all2_in_set2 [OF w 2] obtain x where x: "x \<in> set recs"
        "written_as loc pf db1 x r" by blast
      from written_as_country [OF x(2)] obtain c' where
        c': "c' \<in> set (countries db1)" "ID c' = row_CountryId r" "Code c' = CountryCode x"
        by blast
      with pk c rc have "c' = c" by (intro primary_key_unique [of db1]) simp_all
      with c'(3) code have "CountryCode x = code" by simp
      moreover from x(2) have "Timestamp loc x = Inr (row_Date r)"
        by (simp add: written_as_def)
      moreover from adm x(1) have "admitted loc db x" by simp
      ultimately have "LastRecordDate db code < row_Date r"
        by (auto simp: admitted_def)
      with d show ?thesis by simp
    qed
  qed
  show ?thesis
  proof (cases "?ds = []")
    case False
    then obtain d0 where "d0 \<in> set ?ds" by (cases ?ds) auto
    with sub have "d0 \<in> set ?ds1" by (rule subsetD)
    then have ne1: "?ds1 \<noteq> []" by (cases ?ds1) auto
    from False have ne: "set ?ds \<noteq> {}" unfolding set_empty .
    have "Max (set ?ds) \<le> Max (set ?ds1)"
      by (rule Max_mono [OF sub ne]) (rule finite_set)
    moreover have "LastRecordDate db code = Max (set ?ds)"
      unfolding LastRecordDate_eq [of db code] using False by (rule if_not_P)
    moreover have "LastRecordDate db1 code = Max (set ?ds1)"
      unfolding LastRecordDate_eq [of db1 code] using ne1 by (rule if_not_P)
    ultimately show ?thesis by (simp only:)
  next
    case True
    have e: "LastRecordDate db code = epochStart"
      unfolding LastRecordDate_eq [of db code] using True by (rule if_P)
    show ?thesis
    proof (cases "?ds1 = []")
      case True
      have "LastRecordDate db1 code = epochStart"
        unfolding LastRecordDate_eq [of db1 code] using True by (rule if_P)
      with e show ?thesis by (simp only: order_refl)
    next
      case False
      then obtain d where d: "d \<in> set ?ds1" by (cases ?ds1) auto
      from \<open>?ds = []\<close> have "d \<notin> set ?ds" by (simp only: list.set empty_iff not_False_eq_True)
      with new [OF d] have "LastRecordDate db code < d" by blast
      moreover have "d \<le> Max (set ?ds1)" by (rule Max_ge [OF finite_set d])
      moreover have "LastRecordDate db1 code = Max (set ?ds1)"
        unfolding LastRecordDate_eq [of db1 code] using False by (rule if_not_P)
      ultimately show ?thesis by (simp only:)
    qed
  qed
qed

text \<open>
  Claim C1, as the code has it. Take a store that satisfies the key constraints of
  its schema and a feed of valid records whose dates strictly increase within each
  country code, in a zone where the local midnight of every record's date exists.
  The first import returns no error and appends, in feed order, the fact of exactly
  the records whose date is strictly after the last fact date the store held for
  their code (the epoch, for a code without facts): the fact of every record, when
  every record is after that date. The second import of the same feed into the
  resulting store returns no error and leaves the store as it is: the watermark
  filters every record out.
\<close>

theorem Import_twice:
  "(\<forall>r \<in> set records. valid_record loc pf r \<and> midnight_ok loc r) \<and>
   increasing_per_code loc records \<and> primary_key_ok db \<and> foreign_key_ok db \<longrightarrow>
   (\<exists>rows db1. Import (\<lambda>_. False) loc pf db records = (None, db1) \<and>
      cases db1 = cases db @ rows \<and>
      list_all2 (written_as loc pf db1) (filter (admitted loc db) records) rows \<and>
      Import (\<lambda>_. False) loc pf db1 records = (None, db1))"
proof
  assume a: "(\<forall>r \<in> set records. valid_record loc pf r \<and> midnight_ok loc r) \<and>
   increasing_per_code loc records \<and> primary_key_ok db \<and> foreign_key_ok db"
  then have valid: "\<forall>r \<in> set records. valid_record loc pf r"
    and mid: "\<forall>r \<in> set records. midnight_ok loc r"
    and inc: "increasing_per_code loc records"
    and pk: "primary_key_ok db" and fk: "foreign_key_ok db"
    by simp_all
  let ?adm = "filter (admitted loc db) records"
  have adm: "\<forall>r \<in> set ?adm. admitted loc db r" by simp
  have mid': "\<forall>r \<in> set ?adm. midnight_ok loc r" using mid by simp
  have inc': "increasing_per_code loc ?adm"
    using inc by (rule increasing_per_code_filter)
  from import_loop_spec [OF valid memo_ok_start [of db], where acc = "[]"] pk
  obtain staged dbl minted where
    run: "import_loop loc pf db Map.empty [] records = (Inr staged, dbl)"
    and cs: "cases dbl = cases db" and ext: "countries dbl = countries db @ minted"
    and pk1: "primary_key_ok dbl"
    and st: "list_all2 (stages loc pf) ?adm staged"
    and ctry: "\<forall>f \<in> set staged. \<exists>c \<in> set (countries dbl). Country f = Some c"
    by auto
  define rows where "rows = map (\<lambda>f. to_row loc f (the (Country f))) staged"
  have th: "those (map (record_row loc) staged) = Some rows"
    unfolding rows_def using ctry by (intro those_record_rows) blast
  have w: "list_all2 (written_as loc pf dbl) ?adm rows"
  proof -
    from list_all2_with_set2 [OF st ctry]
    have "list_all2 (\<lambda>r f. stages loc pf r f \<and> (\<exists>c \<in> set (countries dbl). Country f = Some c))
        ?adm staged" .
    from list_all2_with_set1 [OF this mid']
    have "list_all2 (\<lambda>r f. (stages loc pf r f \<and>
        (\<exists>c \<in> set (countries dbl). Country f = Some c)) \<and> midnight_ok loc r) ?adm staged" .
    then have "list_all2 (\<lambda>r f. written_as loc pf dbl r (to_row loc f (the (Country f))))
        ?adm staged"
      by (rule list_all2_mono) (auto intro: stages_written_as)
    then show ?thesis by (simp add: rows_def list_all2_map2)
  qed
  have d: "distinct (map row_key rows)"
    using w inc' pk1 by (rule written_keys_distinct)
  have fr: "set (map row_key rows) \<inter> set (map row_key (cases db)) = {}"
    using w pk1 fk ext adm by (rule written_keys_fresh)
  have "insert_all (\<lambda>_. False) loc (cases dbl) staged = Inr (cases dbl @ rows)"
    by (subst insert_all_Inr_iff) (use th d fr cs in auto)
  then have ins: "ImportRecords (\<lambda>_. False) loc dbl staged = (None, dbl\<lparr>cases := cases db @ rows\<rparr>)"
    by (simp add: ImportRecords_def cs)
  define db1 where "db1 = dbl\<lparr>cases := cases db @ rows\<rparr>"
  have imp1: "Import (\<lambda>_. False) loc pf db records = (None, db1)"
    by (simp add: Import_def run ins db1_def)
  have c1: "cases db1 = cases db @ rows" and k1: "countries db1 = countries dbl"
    by (simp_all add: db1_def)
  have w1: "list_all2 (written_as loc pf db1) ?adm rows"
    using w written_as_countries [OF k1, of loc pf] by simp
  have pk1': "primary_key_ok db1" using pk1 k1 by (simp add: primary_key_ok_def)
  have ext1: "countries db1 = countries db @ minted" using ext k1 by simp
  have skip: "\<forall>r \<in> set records. valid_record loc pf r \<and> \<not> admitted loc db1 r"
  proof
    fix r
    assume r: "r \<in> set records"
    have "\<not> admitted loc db1 r"
    proof (cases "admitted loc db r")
      case True
      with r have "r \<in> set ?adm" by simp
      from list_all2_in_set1 [OF w1 this] obtain row where row: "row \<in> set rows"
        "written_as loc pf db1 r row" by blast
      from written_as_country [OF row(2)] obtain c where
        c: "c \<in> set (countries db1)" "ID c = row_CountryId row" "Code c = CountryCode r"
        by blast
      have "row \<in> set (cases db1)" using row(1) c1 by simp
      from LastRecordDate_ge [OF this c]
      have "row_Date row \<le> LastRecordDate db1 (CountryCode r)" .
      moreover from row(2) have "Timestamp loc r = Inr (row_Date row)"
        by (simp add: written_as_def)
      ultimately show ?thesis by (simp add: admitted_def)
    next
      case False
      from valid r obtain t where t: "Timestamp loc r = Inr t"
        by (cases "Timestamp loc r") (auto simp: valid_record_def)
      with False have "t \<le> LastRecordDate db (CountryCode r)"
        by (simp add: admitted_def)
      also have "\<dots> \<le> LastRecordDate db1 (CountryCode r)"
        using pk1' fk ext1 c1 w1 adm by (rule LastRecordDate_grows)
      finally show ?thesis using t by (simp add: admitted_def)
    qed
    with valid r show "valid_record loc pf r \<and> \<not> admitted loc db1 r" by simp
  qed
  have "import_loop loc pf db1 Map.empty [] records = (Inr [], db1)"
    using skip memo_ok_start [of db1] by (rule import_loop_all_skipped)
  then have imp2: "Import (\<lambda>_. False) loc pf db1 records = (None, db1)"
    by (simp add: Import_def ImportRecords_def)
  from imp1 c1 w1 imp2
  show "\<exists>rows db1. Import (\<lambda>_. False) loc pf db records = (None, db1) \<and>
      cases db1 = cases db @ rows \<and>
      list_all2 (written_as loc pf db1) (filter (admitted loc db) records) rows \<and>
      Import (\<lambda>_. False) loc pf db1 records = (None, db1)"
    by blast
qed

text \<open>
  The feed of Germany for 1 to 3 January 2021, imported into the empty store in UTC:
  every record is after the epoch, the first import writes the three facts, the
  second writes none, and a later feed with 4 January added writes that day only.
\<close>

theorem Import_twice_witness:
  "(\<exists>rows db1. Import (\<lambda>_. False) utc demo_pf empty_db feed3 = (None, db1) \<and>
      cases db1 = cases empty_db @ rows \<and>
      list_all2 (written_as utc demo_pf db1) (filter (admitted utc empty_db) feed3) rows \<and>
      Import (\<lambda>_. False) utc demo_pf db1 feed3 = (None, db1)) \<and>
   list_all (\<lambda>r. valid_record utc demo_pf r \<and> midnight_ok utc r) feed3 \<and>
   increasing_per_code utc feed3 \<and> primary_key_ok empty_db \<and> foreign_key_ok empty_db \<and>
   filter (admitted utc empty_db) feed3 = feed3 \<and>
   map row_Date (cases (snd (Import (\<lambda>_. False) utc demo_pf empty_db feed3))) =
     [1609459200, 1609545600, 1609632000] \<and>
   map row_Cumulative (cases (snd (Import (\<lambda>_. False) utc demo_pf empty_db feed3))) =
     [0, 11 / 2, 61 / 10] \<and>
   map row_Date (cases (snd (Import (\<lambda>_. False) utc demo_pf
       (snd (Import (\<lambda>_. False) utc demo_pf empty_db feed3)) feed3))) =
     [1609459200, 1609545600, 1609632000] \<and>
   map row_Date (cases (snd (Import (\<lambda>_. False) utc demo_pf
       (snd (Import (\<lambda>_. False) utc demo_pf empty_db feed3)) feed4))) =
     [1609459200, 1609545600, 1609632000, 1609718400]"
proof -
  have a: "(\<forall>r \<in> set feed3. valid_record utc demo_pf r \<and> midnight_ok utc r) \<and>
   increasing_per_code utc feed3 \<and> primary_key_ok empty_db \<and> foreign_key_ok empty_db"
    by code_simp
  have l: "list_all (\<lambda>r. valid_record utc demo_pf r \<and> midnight_ok utc r) feed3"
    by code_simp
  have f: "filter (admitted utc empty_db) feed3 = feed3"
    by code_simp
  have e1: "map row_Date (cases (snd (Import (\<lambda>_. False) utc demo_pf empty_db feed3))) =
     [1609459200, 1609545600, 1609632000]"
    by code_simp
  have e2: "map row_Cumulative (cases (snd (Import (\<lambda>_. False) utc demo_pf empty_db feed3))) =
     [0, 11 / 2, 61 / 10]"
    by code_simp
  have e3: "map row_Date (cases (snd (Import (\<lambda>_. False) utc demo_pf
       (snd (Import (\<lambda>_. False) utc demo_pf empty_db feed3)) feed3))) =
     [1609459200, 1609545600, 1609632000]"
    by code_simp
  have e4: "map row_Date (cases (snd (Import (\<lambda>_. False) utc demo_pf
       (snd (Import (\<lambda>_. False) utc demo_pf empty_db feed3)) feed4))) =
     [1609459200, 1609545600, 1609632000, 1609718400]"
    by code_simp
  note r = Import_twice [of feed3 utc demo_pf empty_db, THEN mp, OF a]
  show ?thesis
    by (intro conjI r l a [THEN conjunct2, THEN conjunct1]
        a [THEN conjunct2, THEN conjunct2, THEN conjunct1]
        a [THEN conjunct2, THEN conjunct2, THEN conjunct2] f e1 e2 e3 e4)
qed

text \<open>
  Against claim C1 as stated, three valid feeds with strictly increasing dates,
  imported into the empty store. In UTC, the record of 31 December 1969 is not after
  the epoch: the first import succeeds and inserts no fact. In the zone of Santiago,
  midnight of 6 September 2020 does not exist: \<open>time.Date\<close> gives 23:00 of
  5 September, which is stored as the midnight of 5 September. So the first import of
  the feed of 5 and 6 September fails on the primary key of \<open>Cases\<close> and inserts
  nothing; and the record of 6 September alone is imported as a fact of 5 September,
  is after the watermark again at the second import, and the second import fails on
  the primary key instead of skipping it.
\<close>

theorem Import_twice_counterexample:
  "valid_record utc demo_pf demo_old \<and> increasing_per_code utc [demo_old] \<and>
   cases empty_db = [] \<and>
   fst (Import (\<lambda>_. False) utc demo_pf empty_db [demo_old]) = None \<and>
   cases (snd (Import (\<lambda>_. False) utc demo_pf empty_db [demo_old])) = [] \<and>
   list_all (valid_record santiago demo_pf) feed_sep \<and> increasing_per_code santiago feed_sep \<and>
   map (Timestamp santiago) feed_sep = [Inr 1599278400, Inr 1599361200] \<and>
   normalizeDate santiago 1599361200 = 1599278400 \<and>
   list_all (admitted santiago empty_db) feed_sep \<and>
   fst (Import (\<lambda>_. False) santiago demo_pf empty_db feed_sep) = Some ErrConstraint \<and>
   cases (snd (Import (\<lambda>_. False) santiago demo_pf empty_db feed_sep)) = [] \<and>
   fst (Import (\<lambda>_. False) santiago demo_pf empty_db (tl feed_sep)) = None \<and>
   map row_Date (cases (snd (Import (\<lambda>_. False) santiago demo_pf empty_db (tl feed_sep)))) =
     [1599278400] \<and>
   fst (Import (\<lambda>_. False) santiago demo_pf
     (snd (Import (\<lambda>_. False) santiago demo_pf empty_db (tl feed_sep))) (tl feed_sep)) =
     Some ErrConstraint"
  by code_simp

section \<open>The key constraints are kept\<close>

text \<open>
  The key constraints assumed of the store above hold of the empty store and are
  kept by every import, whatever its outcome: they hold of every store the service
  builds.
\<close>

lemma import_loop_keys:
  "(primary_key_ok db \<longrightarrow> primary_key_ok (snd (import_loop loc pf db cache acc records))) \<and>
   (foreign_key_ok db \<longrightarrow> foreign_key_ok (snd (import_loop loc pf db cache acc records)))"
proof (induction records arbitrary: db cache acc)
  case Nil
  then show ?case by simp
next
  case (Cons r rs)
  let ?put = "PutCountry db (CountryCode r) (rec_GeoID r) (CountryName r) (rec_Population r)
      (rec_Continent r)"
  show ?case
  proof (cases "Timestamp loc r")
    case (Inl e)
    then show ?thesis by simp
  next
    case (Inr t)
    show ?thesis
    proof (cases "parse_cumulative pf r")
      case (Inl e)
      then show ?thesis using Inr by simp
    next
      case v: (Inr v)
      show ?thesis
      proof (cases "fst (lastRecordTime db cache (CountryCode r)) < t")
        case False
        then show ?thesis using Inr v Cons.IH by simp
      next
        case True
        let ?acc' = "acc @ [\<lparr>Date = t, Cases = rec_Cases r, Deaths = rec_Deaths r, Cumulative = v,
            Country = Some (fst ?put)\<rparr>]"
        let ?cache' = "snd (lastRecordTime db cache (CountryCode r))"
        have eq: "import_loop loc pf db cache acc (r # rs) =
            import_loop loc pf (snd ?put) ?cache' ?acc' rs"
          using Inr v True by simp
        from Cons.IH [of "snd ?put" ?cache' ?acc']
        show ?thesis unfolding eq
          using PutCountry_primary_key [of db] PutCountry_foreign_key [of db] by blast
      qed
    qed
  qed
qed

lemma those_record_rows_mem:
  "those (map (record_row loc) staged) = Some rows \<Longrightarrow> row \<in> set rows \<Longrightarrow>
   \<exists>f \<in> set staged. \<exists>c. Country f = Some c \<and> row = to_row loc f c"
proof (induction staged arbitrary: rows)
  case Nil
  then show ?case by simp
next
  case (Cons f fs)
  from Cons.prems(1) obtain c where c: "Country f = Some c"
    by (cases "Country f") (simp_all add: record_row_def)
  then have hd: "record_row loc f = Some (to_row loc f c)"
    by (simp add: record_row_def)
  with Cons.prems(1) obtain rows' where
    r': "those (map (record_row loc) fs) = Some rows'" and rows: "rows = to_row loc f c # rows'"
    by (cases "those (map (record_row loc) fs)") auto
  show ?case
  proof (cases "row = to_row loc f c")
    case True
    with c show ?thesis by auto
  next
    case False
    with Cons.prems(2) rows have "row \<in> set rows'" by simp
    from Cons.IH [OF r' this] show ?thesis by auto
  qed
qed

lemma ImportRecords_foreign_key:
  assumes fk: "foreign_key_ok db"
    and ctry: "\<forall>f \<in> set staged. \<exists>c \<in> set (countries db). Country f = Some c"
  shows "foreign_key_ok (snd (ImportRecords flt loc db staged))"
proof (cases "insert_all flt loc (cases db) staged")
  case (Inl e)
  then show ?thesis using fk by (simp add: ImportRecords_def)
next
  case (Inr tbl)
  then obtain rows where rows: "those (map (record_row loc) staged) = Some rows"
    "tbl = cases db @ rows"
    by (auto simp: insert_all_Inr_iff)
  have "\<exists>c \<in> set (countries db). ID c = row_CountryId row" if "row \<in> set rows" for row
  proof -
    from those_record_rows_mem [OF rows(1) that] obtain f c where
      f: "f \<in> set staged" "Country f = Some c" "row = to_row loc f c" by blast
    with ctry have "c \<in> set (countries db)" by force
    with f(3) show ?thesis by (auto simp: to_row_def)
  qed
  with fk rows(2) Inr show ?thesis
    by (auto simp: ImportRecords_def foreign_key_ok_iff)
qed

lemma empty_store_keys: "primary_key_ok empty_db \<and> foreign_key_ok empty_db"
  by (simp add: empty_db_def primary_key_ok_def foreign_key_ok_def)

lemma Import_preserves_keys:
  assumes "primary_key_ok db" and "foreign_key_ok db"
  shows "primary_key_ok (snd (Import flt loc pf db records)) \<and>
     foreign_key_ok (snd (Import flt loc pf db records))"
proof (cases "import_loop loc pf db Map.empty [] records")
  case (Pair res db1)
  from import_loop_keys [of db loc pf Map.empty "[]" records] assms Pair
  have k: "primary_key_ok db1" "foreign_key_ok db1" by simp_all
  show ?thesis
  proof (cases res)
    case (Inl e)
    with Pair k show ?thesis by (simp add: Import_def)
  next
    case (Inr staged)
    with Pair have run: "import_loop loc pf db Map.empty [] records = (Inr staged, db1)" by simp
    from import_loop_staged_countries [OF run]
    have "\<forall>f \<in> set staged. \<exists>c \<in> set (countries db1). Country f = Some c" by simp
    from ImportRecords_foreign_key [OF k(2) this]
    have "foreign_key_ok (snd (ImportRecords flt loc db1 staged))" .
    moreover have "primary_key_ok (snd (ImportRecords flt loc db1 staged))"
      using k(1) by (auto simp: ImportRecords_def primary_key_ok_def split: sum.splits)
    ultimately show ?thesis using run by (simp add: Import_def)
  qed
qed

end
